theory Spec2Isabelle
  imports Main
begin

section \<open>Python string primitives used by the generator\<close>

text \<open>
  The generator \<^verbatim>\<open>build_pymeos_functions.py\<close> is a text-to-text program. Python strings are
  modelled as \<^typ>\<open>string\<close> (lists of 8-bit characters); the prototypes the generator reads are
  ASCII text, and characters above 127 are treated as neither word characters nor white space.
\<close>

abbreviation sq :: string where
  "sq \<equiv> [CHR 0x27]"

text \<open>\<^verbatim>\<open>s.split(sep)\<close> for a one-character separator: never empty, empty fields are kept.\<close>

fun split_on :: "char \<Rightarrow> string \<Rightarrow> string list" where
  "split_on sep [] = [[]]"
| "split_on sep (c # cs) =
     (if c = sep then [] # split_on sep cs
      else (case split_on sep cs of [] \<Rightarrow> [[c]] | w # ws \<Rightarrow> (c # w) # ws))"

text \<open>\<^verbatim>\<open>sep.join(xs)\<close>.\<close>

fun join :: "string \<Rightarrow> string list \<Rightarrow> string" where
  "join sep [] = []"
| "join sep [x] = x"
| "join sep (x # y # ys) = x @ sep @ join sep (y # ys)"

text \<open>\<^verbatim>\<open>s.startswith(p)\<close> and \<^verbatim>\<open>s.endswith(p)\<close>.\<close>

definition startswith :: "string \<Rightarrow> string \<Rightarrow> bool" where
  "startswith p s = (take (length p) s = p)"

definition endswith :: "string \<Rightarrow> string \<Rightarrow> bool" where
  "endswith p s = (length p \<le> length s \<and> drop (length s - length p) s = p)"

text \<open>The ASCII characters for which \<^verbatim>\<open>str.isspace\<close> holds, and \<^verbatim>\<open>s.strip()\<close>.\<close>

definition py_isspace :: "char \<Rightarrow> bool" where
  "py_isspace c = (c \<in> set [CHR 0x09, CHR 0x0A, CHR 0x0B, CHR 0x0C, CHR 0x0D,
                              CHR 0x1C, CHR 0x1D, CHR 0x1E, CHR 0x1F, CHR 0x20])"

definition strip :: "string \<Rightarrow> string" where
  "strip s = rev (dropWhile py_isspace (rev (dropWhile py_isspace s)))"

text \<open>\<^verbatim>\<open>s.lstrip('*')\<close>.\<close>

definition lstrip_star :: "string \<Rightarrow> string" where
  "lstrip_star s = dropWhile (\<lambda>c. c = CHR ''*'') s"


section \<open>The conversion registry\<close>

text \<open>
  Modelled from the spec: the class \<^verbatim>\<open>Conversion\<close> and the table \<^verbatim>\<open>conversion_map\<close> are imported
  from \<^verbatim>\<open>lib.objects\<close>, which is not among the sources. A Conversion is built from four positional
  arguments (native type key, host type name, optional host-to-native converter, optional
  native-to-host converter); the generator reads \<^verbatim>\<open>p_type\<close>, \<^verbatim>\<open>p_to_c\<close> and \<^verbatim>\<open>c_to_p\<close>. The converters
  map the text of an expression to the text of an expression. The table itself is a parameter
  \<open>cm\<close> of every function that consults it.
\<close>

record Conversion =
  c_type :: string
  p_type :: string
  p_to_c :: "(string \<Rightarrow> string) option"
  c_to_p :: "(string \<Rightarrow> string) option"

type_synonym conversion_map = "string \<rightharpoonup> Conversion"

text \<open>\<^verbatim>\<open>get_param_conversion\<close> (lines 88-97). The result type is \<^verbatim>\<open>Optional[Conversion]\<close>.\<close>

definition get_param_conversion :: "conversion_map \<Rightarrow> string \<Rightarrow> Conversion option" where
  "get_param_conversion cm param_type =
     (case cm param_type of
        None \<Rightarrow>
          (if endswith ''**'' param_type then
             Some \<lparr>c_type = param_type, p_type = sq @ param_type @ sq,
                   p_to_c = Some (\<lambda>name. ''[_ffi.cast('' @ sq @ butlast param_type @ sq
                                          @ '', x) for x in '' @ name @ '']''),
                   c_to_p = Some (\<lambda>name. name)\<rparr>
           else
             Some \<lparr>c_type = param_type, p_type = sq @ param_type @ sq,
                   p_to_c = Some (\<lambda>name. ''_ffi.cast('' @ sq @ param_type @ sq
                                          @ '', '' @ name @ '')''),
                   c_to_p = Some (\<lambda>name. name)\<rparr>)
      | Some conversion \<Rightarrow> Some conversion)"

text \<open>\<^verbatim>\<open>get_return_type\<close> (lines 100-104).\<close>

definition get_return_type :: "conversion_map \<Rightarrow> string \<Rightarrow> string \<times> string option" where
  "get_return_type cm inner_return_type =
     (case cm inner_return_type of
        None \<Rightarrow> (sq @ inner_return_type @ sq, None)
      | Some conversion \<Rightarrow>
          (p_type conversion,
           (case c_to_p conversion of None \<Rightarrow> None | Some f \<Rightarrow> Some (f ''result''))))"


section \<open>Parameter classification\<close>

text \<open>
  A classified parameter is the 4-tuple of \<^verbatim>\<open>get_param\<close>: name, host type, optional conversion
  statement, and the expression passed to the native call.
\<close>

type_synonym param = "string \<times> string \<times> string option \<times> string"

fun pname :: "param \<Rightarrow> string" where "pname (n, t, c, e) = n"
fun ptype :: "param \<Rightarrow> string" where "ptype (n, t, c, e) = t"
fun pconv :: "param \<Rightarrow> string option" where "pconv (n, t, c, e) = c"
fun pexpr :: "param \<Rightarrow> string" where "pexpr (n, t, c, e) = e"

text \<open>Lines 80-85 of \<^verbatim>\<open>get_param\<close>: the tuple built once name and type are known.\<close>

definition param_tuple :: "conversion_map \<Rightarrow> string \<Rightarrow> string \<Rightarrow> param" where
  "param_tuple cm param_type param_name =
     (case get_param_conversion cm param_type of
        None \<Rightarrow> (param_name, ''Any'', Some [], param_name)
      | Some conversion \<Rightarrow>
          (case p_to_c conversion of
             None \<Rightarrow> (param_name, p_type conversion, None, param_name)
           | Some f \<Rightarrow>
               (param_name, p_type conversion,
                Some (param_name @ ''_converted = '' @ f param_name),
                param_name @ ''_converted'')))"

text \<open>\<^verbatim>\<open>get_param\<close> (lines 66-85); \<open>None\<close> is the omit value.\<close>

definition get_param :: "conversion_map \<Rightarrow> string \<Rightarrow> param option" where
  "get_param cm inner_param =
     (let split = split_on CHR '' '' inner_param;
          param_type = join '' '' (butlast split);
          param_type = (if startswith ''**'' (last split) then param_type @ '' **''
                        else if startswith ''*'' (last split) then param_type @ '' *''
                        else param_type);
          param_name = lstrip_star (last split)
      in if param_name = ''str'' then Some (param_tuple cm param_type ''string'')
         else if param_name = ''is'' then Some (param_tuple cm param_type ''iset'')
         else if param_name = ''void'' then None
         else Some (param_tuple cm param_type param_name))"

text \<open>\<^verbatim>\<open>get_params\<close> (lines 62-63).\<close>

definition get_params :: "conversion_map \<Rightarrow> string \<Rightarrow> param list" where
  "get_params cm inner_params =
     List.map_filter (\<lambda>param. get_param cm (strip param)) (split_on CHR '','' inner_params)"


section \<open>Function synthesis\<close>

definition manual_functions :: "string \<rightharpoonup> string" where
  "manual_functions = map_of
     [(''period_shift_tscale'',
         ''result parameter is also input. start and duration parameters can be null.''),
      (''timestampset_shift_tscale'', ''start and duration parameters can be null.''),
      (''periodset_shift_tscale'', ''start and duration parameters can be null.''),
      (''periodset_timestamps'', ''count is an output parameter.''),
      (''periodset_periods'', ''count is an output parameter.'')]"

text \<open>\<^verbatim>\<open>x or ''\<close> for an optional string.\<close>

definition or_empty :: "string option \<Rightarrow> string" where
  "or_empty x = (case x of None \<Rightarrow> [] | Some s \<Rightarrow> s)"

text \<open>The \<^verbatim>\<open>note\<close> of lines 148-150.\<close>

definition todo_note :: "string \<Rightarrow> string" where
  "todo_note function_name =
     (case manual_functions function_name of
        Some n \<Rightarrow> ''#TODO '' @ n @ ''\<newline>'' | None \<Rightarrow> [])"

text \<open>
  Lines 109-111: the value of \<^verbatim>\<open>result_param\<close> and the parameter list after the \<^verbatim>\<open>pop(-1)\<close>.
\<close>

definition pop_result :: "param list \<Rightarrow> param option \<times> param list" where
  "pop_result parameters =
     (if length parameters > 1 \<and> pname (last parameters) = ''result''
      then (Some (last parameters), butlast parameters)
      else (None, parameters))"

text \<open>Lines 113-115: \<^verbatim>\<open>out_params\<close>, computed on the list left by \<open>pop_result\<close>.\<close>

definition select_out_params :: "param list \<Rightarrow> param list" where
  "select_out_params parameters =
     (if length parameters > 1
      then filter (\<lambda>p. endswith ''_out'' (pname p)) parameters else [])"

text \<open>
  \<^verbatim>\<open>build_function_string\<close> (lines 107-163). Each \<open>let\<close> is one assignment of the source, in
  order; a name bound twice is the source's reassignment. \<^verbatim>\<open>result_manipulation\<close> is an optional
  string: absent or the conversion of the result at line 122, a string on both branches of lines
  124-135, to which line 140 appends; line 155 tests it once more.
\<close>

definition build_function_string ::
  "string \<Rightarrow> string \<Rightarrow> param list \<Rightarrow> string option \<Rightarrow> string" where
  \<open>build_function_string function_name return_type parameters result_conversion =
     (let (result_param, parameters) = pop_result parameters;
          out_params = select_out_params parameters;
          params = join '', ''
            (map (\<lambda>p. pname p @ '': '' @ ptype p)
                 (filter (\<lambda>p. p \<notin> set out_params) parameters));
          param_conversions = join ''\<newline>    ''
            (map (\<lambda>p. the (pconv p))
                 (filter (\<lambda>p. pconv p \<noteq> None \<and> p \<notin> set out_params) parameters));
          inner_params = join '', ''
            (map (\<lambda>pc. if pc \<in> set out_params then pname pc else pexpr pc) parameters);
          result_manipulation =
            (case result_conversion of None \<Rightarrow> None
             | Some rc \<Rightarrow> Some (''    result = '' @ rc @ ''\<newline>''));
          (param_conversions, inner_params, result_manipulation, return_type) =
            (case result_param of
               Some rp \<Rightarrow>
                 (param_conversions @ ''\<newline>    out_result = _ffi.new('' @ ptype rp @ '')'',
                  inner_params @ '', out_result'',
                  (if return_type = ''bool''
                   then Some (or_empty result_manipulation
                        @ ''    if result:\<newline>''
                        @ ''        return out_result[0]\<newline>''
                        @ ''    raise Exception(f'C call went wrong: {result}')'')
                   else Some (or_empty result_manipulation
                        @ ''    return out_result[0]\<newline>'')),
                  ptype rp)
             | None \<Rightarrow>
                 (param_conversions, inner_params,
                  Some (or_empty result_manipulation @ ''    return result''), return_type));
          (param_conversions, return_type, result_manipulation) =
            foldl (\<lambda>(param_conversions, return_type, result_manipulation) out_param.
                     (param_conversions @ ''\<newline>    '' @ pname out_param
                        @ '' = _ffi.new('' @ ptype out_param @ '')'',
                      return_type @ '', '' @ ptype out_param,
                      map_option (\<lambda>text. text @ '', '' @ pname out_param) result_manipulation))
                  (param_conversions, return_type, result_manipulation) out_params;
          return_type =
            (if length out_params > 0 then ''"Tuple['' @ return_type @ '']"'' else return_type);
          param_conversions =
            (if length param_conversions > 0 then ''    '' @ param_conversions @ ''\<newline>''
             else param_conversions);
          note = todo_note function_name
      in if return_type = ''None''
         then note @ ''def '' @ function_name @ ''('' @ params @ '') -> '' @ return_type
              @ '':\<newline>'' @ param_conversions
              @ ''    _lib.'' @ function_name @ ''('' @ inner_params @ '')''
         else (case result_manipulation of
                 None \<Rightarrow>
                   note @ ''def '' @ function_name @ ''('' @ params @ '') -> '' @ return_type
                   @ '':\<newline>'' @ param_conversions
                   @ ''    result = _lib.'' @ function_name @ ''('' @ inner_params @ '')\<newline>''
                   @ ''    return result''
               | Some result_manipulation \<Rightarrow>
                   note @ ''def '' @ function_name @ ''('' @ params @ '') -> '' @ return_type
                   @ '':\<newline>'' @ param_conversions
                   @ ''    result = _lib.'' @ function_name @ ''('' @ inner_params @ '')\<newline>''
                   @ result_manipulation))\<close>


section \<open>Declaration extraction\<close>

text \<open>
  The extractor is \<^verbatim>\<open>re.finditer\<close> over the flattened text. The library's matcher is
  modelled as a backtracking matcher over the constructs the pattern uses: literal text, a
  character class, concatenation, the greedy quantifiers \<^verbatim>\<open>?\<close>, \<^verbatim>\<open>*\<close>, \<^verbatim>\<open>+\<close>, and a named group.
\<close>

datatype regex =
    Lit string
  | Cls "char \<Rightarrow> bool"
  | Seq regex regex
  | Opt regex
  | Star regex
  | Plus regex
  | Grp string regex

text \<open>
  A matcher state is the groups captured so far (latest first) and the text still to be read.
  \<open>rmatch r st\<close> lists every way \<open>r\<close> can match at the front of the text, in the order in which
  backtracking tries them (a greedy quantifier tries more repetitions first); the match the
  library reports is the first one. A repetition is bounded by the length of the remaining text:
  each round has to consume at least one character.
\<close>

type_synonym groups = "(string \<times> string) list"
type_synonym mstate = "groups \<times> string"

fun star_iter :: "nat \<Rightarrow> (mstate \<Rightarrow> mstate list) \<Rightarrow> mstate \<Rightarrow> mstate list" where
  "star_iter 0 m st = [st]"
| "star_iter (Suc n) m st =
     concat (map (star_iter n m)
                 (filter (\<lambda>st'. length (snd st') < length (snd st)) (m st))) @ [st]"

primrec rmatch :: "regex \<Rightarrow> mstate \<Rightarrow> mstate list" where
  "rmatch (Lit w) st =
     (if startswith w (snd st) then [(fst st, drop (length w) (snd st))] else [])"
| "rmatch (Cls p) st =
     (case snd st of [] \<Rightarrow> [] | c # cs \<Rightarrow> if p c then [(fst st, cs)] else [])"
| "rmatch (Seq a b) st = concat (map (rmatch b) (rmatch a st))"
| "rmatch (Opt a) st = rmatch a st @ [st]"
| "rmatch (Star a) st = star_iter (length (snd st)) (rmatch a) st"
| "rmatch (Plus a) st =
     concat (map (\<lambda>st'. star_iter (length (snd st')) (rmatch a) st') (rmatch a st))"
| "rmatch (Grp n a) st =
     map (\<lambda>(g, r). ((n, take (length (snd st) - length r) (snd st)) # g, r)) (rmatch a st)"

text \<open>The class \<^verbatim>\<open>\w\<close> on ASCII text, and the class \<^verbatim>\<open>[\w ,\*]\<close> of the parameter list.\<close>

definition is_word :: "char \<Rightarrow> bool" where
  "is_word c =
     (c \<in> set ''abcdefghijklmnopqrstuvwxyzABCDEFGHIJKLMNOPQRSTUVWXYZ0123456789_'')"

definition is_star :: "char \<Rightarrow> bool" where
  "is_star c = (c = CHR ''*'')"

definition in_params_class :: "char \<Rightarrow> bool" where
  "in_params_class c = (is_word c \<or> c = CHR '' '' \<or> c = CHR '','' \<or> c = CHR ''*'')"

text \<open>
  \<^verbatim>\<open>f_regex\<close> (line 45):
  \<^verbatim>\<open>extern (?P<returnType>(?:const )?\w+(?: \*+)?) ?(?P<function>\w+)\((?P<params>[\w ,\*]*)\);\<close>
\<close>

definition f_regex :: regex where
  "f_regex =
     Seq (Lit ''extern '')
    (Seq (Grp ''returnType''
            (Seq (Opt (Lit ''const ''))
            (Seq (Plus (Cls is_word))
                 (Opt (Seq (Lit '' '') (Plus (Cls is_star)))))))
    (Seq (Opt (Lit '' ''))
    (Seq (Grp ''function'' (Plus (Cls is_word)))
    (Seq (Lit ''('')
    (Seq (Grp ''params'' (Star (Cls in_params_class)))
         (Lit '');''))))))"

text \<open>
  A match object: start, end and the named groups. \<open>finditer_from r pos s\<close> scans \<open>s\<close>, the text
  from offset \<open>pos\<close> on: the leftmost position with a match yields it, and the scan goes on from
  the match's end. (After an empty match the scan moves one character on; \<open>f_regex\<close> has no
  empty match.)
\<close>

type_synonym match = "nat \<times> nat \<times> groups"

function finditer_from :: "regex \<Rightarrow> nat \<Rightarrow> string \<Rightarrow> match list" where
  "finditer_from r pos s =
     (case rmatch r ([], s) of
        [] \<Rightarrow> (case s of [] \<Rightarrow> [] | c # cs \<Rightarrow> finditer_from r (Suc pos) cs)
      | (g, rest) # _ \<Rightarrow>
          (let n = length s - length rest in
           (pos, pos + n, g) #
             (if 0 < n then finditer_from r (pos + n) (drop n s)
              else (case s of [] \<Rightarrow> [] | c # cs \<Rightarrow> finditer_from r (Suc pos) cs))))"
  by pat_completeness auto
termination
  by (relation "measure (\<lambda>(r, pos, s). length s)") auto

definition finditer :: "regex \<Rightarrow> string \<Rightarrow> match list" where
  "finditer r s = finditer_from r 0 s"

text \<open>\<^verbatim>\<open>match.start()\<close> and \<^verbatim>\<open>match.end()\<close>.\<close>

fun m_start :: "match \<Rightarrow> nat" where "m_start (a, b, g) = a"
fun m_end :: "match \<Rightarrow> nat" where "m_end (a, b, g) = b"

text \<open>\<^verbatim>\<open>match.groupdict()[k]\<close>; every group of \<open>f_regex\<close> takes part in every match.\<close>

definition named :: "match \<Rightarrow> string \<Rightarrow> string" where
  "named m k = (case map_of (snd (snd m)) k of Some v \<Rightarrow> v | None \<Rightarrow> [])"

text \<open>
  \<^verbatim>\<open>''.join(content.splitlines())\<close> (line 46) removes every line boundary; on ASCII text these
  are the characters 0x0A to 0x0D and 0x1C to 0x1E.
\<close>

definition is_line_boundary :: "char \<Rightarrow> bool" where
  "is_line_boundary c =
     (c \<in> set [CHR 0x0A, CHR 0x0B, CHR 0x0C, CHR 0x0D, CHR 0x1C, CHR 0x1D, CHR 0x1E])"

definition flatten :: "string \<Rightarrow> string" where
  "flatten content = filter (\<lambda>c. \<not> is_line_boundary c) content"


section \<open>The emission driver\<close>

definition BASE :: string where
  \<open>BASE =
     ''from datetime import datetime, timedelta\<newline>''
   @ ''from typing import Any, Tuple\<newline>''
   @ ''\<newline>''
   @ ''import _meos_cffi\<newline>''
   @ ''from dateutil.parser import parse\<newline>''
   @ ''\<newline>''
   @ ''_ffi = _meos_cffi.ffi\<newline>''
   @ ''_lib = _meos_cffi.lib\<newline>''
   @ ''\<newline>''
   @ ''\<newline>''
   @ ''def datetime_to_timestamptz(dt: datetime) -> int:\<newline>''
   @ ''    return _lib.pg_timestamptz_in(dt.strftime('%Y-%m-%d %H:%M:%S%z').encode('utf-8'), -1)\<newline>''
   @ ''\<newline>''
   @ ''\<newline>''
   @ ''def timestamptz_to_datetime(ts: int) -> datetime:\<newline>''
   @ ''    return parse(pg_timestamptz_out(ts))\<newline>''
   @ ''\<newline>''
   @ ''\<newline>''
   @ ''def timedelta_to_interval(td: timedelta) -> Any:\<newline>''
   @ ''    return _ffi.new('Interval *', {'time': td.microseconds + td.seconds * 1000000, 'day': td.days, 'month': 0})\<newline>''
   @ ''\<newline>''
   @ ''\<newline>''
   @ ''def interval_to_timedelta(interval: Any) -> timedelta:\<newline>''
   @ ''    # TODO fix for months/years\<newline>''
   @ ''    return timedelta(days=interval.day, microseconds=interval.time)\<newline>''\<close>

text \<open>Lines 51-57: the body of the loop, from one match to the text of its wrapper.\<close>

definition function_string :: "conversion_map \<Rightarrow> match \<Rightarrow> string" where
  "function_string cm m =
     (let function = named m ''function'';
          inner_return_type = named m ''returnType'';
          (return_type, result_conversion) = get_return_type cm inner_return_type;
          inner_params = named m ''params'';
          params = get_params cm inner_params
      in build_function_string function return_type params result_conversion)"

text \<open>
  The files the run touches: their contents by path, and which paths can be opened for writing.
  Opening a missing file for reading, or a path that cannot be written, raises.
\<close>

record filesystem =
  files :: "string \<rightharpoonup> string"
  writable :: "string \<Rightarrow> bool"

datatype io_error = FileNotFoundError string | PermissionError string

definition open_read :: "filesystem \<Rightarrow> string \<Rightarrow> io_error + string" where
  "open_read fs path =
     (case files fs path of None \<Rightarrow> Inl (FileNotFoundError path) | Some content \<Rightarrow> Inr content)"

text \<open>\<^verbatim>\<open>open(path, 'w+')\<close> creates the file or truncates it.\<close>

definition open_truncate :: "filesystem \<Rightarrow> string \<Rightarrow> io_error + filesystem" where
  "open_truncate fs path =
     (if writable fs path then Inr (fs\<lparr>files := (files fs)(path \<mapsto> [])\<rparr>)
      else Inl (PermissionError path))"

definition file_write :: "filesystem \<Rightarrow> string \<Rightarrow> string \<Rightarrow> filesystem" where
  "file_write fs path text =
     fs\<lparr>files := (files fs)(path \<mapsto> or_empty (files fs path) @ text)\<rparr>"

text \<open>\<^verbatim>\<open>main\<close> (lines 42-59).\<close>

definition main :: "conversion_map \<Rightarrow> filesystem \<Rightarrow> io_error + filesystem" where
  "main cm fs =
     (case open_read fs ''./sources/functions.c'' of
        Inl e \<Rightarrow> Inl e
      | Inr content \<Rightarrow>
          (let matches = finditer f_regex (flatten content) in
           case open_truncate fs ''lib/functions.py'' of
             Inl e \<Rightarrow> Inl e
           | Inr fs \<Rightarrow>
               (let fs = file_write fs ''lib/functions.py'' BASE
                in Inr (foldl (\<lambda>fs m.
                          file_write
                            (file_write fs ''lib/functions.py'' (function_string cm m))
                            ''lib/functions.py'' ''\<newline>\<newline>\<newline>'')
                        fs matches))))"


section \<open>An example registry\<close>

text \<open>
  Modelled from the spec: the entries of \<^verbatim>\<open>conversion_map\<close> are not among the sources. The
  theorems below hold for every registry; this one, with entries of the kind the registry is
  described to hold (no value, boolean, integer, text), is the registry of the worked examples.
\<close>

definition sample_conversion_map :: conversion_map where
  "sample_conversion_map = map_of
     [(''void'', \<lparr>c_type = ''void'', p_type = ''None'', p_to_c = None, c_to_p = None\<rparr>),
      (''bool'', \<lparr>c_type = ''bool'', p_type = ''bool'', p_to_c = None, c_to_p = None\<rparr>),
      (''int'', \<lparr>c_type = ''int'', p_type = ''int'', p_to_c = None, c_to_p = None\<rparr>),
      (''char *'', \<lparr>c_type = ''char *'', p_type = ''str'',
                    p_to_c = Some (\<lambda>e. e @ ''.encode('utf-8')''),
                    c_to_p = Some (\<lambda>e. ''_ffi.string('' @ e @ '').decode('utf-8')'')\<rparr>)]"


section \<open>Properties of the conversion registry\<close>

lemma endswith_append: "endswith p (u @ p)"
  by (simp add: endswith_def)

text \<open>
  Claim C6, as amended. The lookup never fails; a registered type yields its entry verbatim; an
  unregistered type ending in \<^verbatim>\<open>**\<close> yields a Conversion whose host-to-native converter casts
  each element to the type with one \<^verbatim>\<open>*\<close> less and collects the results; any other unregistered
  type yields a Conversion whose host-to-native converter casts to the type itself. In both
  synthesized Conversions the native-to-host converter is the identity, not a cast.
\<close>

theorem get_param_conversion_total:
  "(\<exists>conv. get_param_conversion cm t = Some conv)
   \<and> (\<forall>conv. cm t = Some conv \<longrightarrow> get_param_conversion cm t = Some conv)
   \<and> (cm (u @ ''**'') = None \<longrightarrow>
        (\<exists>conv f g. get_param_conversion cm (u @ ''**'') = Some conv
           \<and> p_type conv = sq @ u @ ''**'' @ sq
           \<and> p_to_c conv = Some f \<and> c_to_p conv = Some g
           \<and> (\<forall>e. f e = ''[_ffi.cast('' @ sq @ u @ ''*'' @ sq @ '', x) for x in '' @ e @ '']'')
           \<and> (\<forall>e. g e = e)))
   \<and> (cm t = None \<and> \<not> endswith ''**'' t \<longrightarrow>
        (\<exists>conv f g. get_param_conversion cm t = Some conv
           \<and> p_type conv = sq @ t @ sq
           \<and> p_to_c conv = Some f \<and> c_to_p conv = Some g
           \<and> (\<forall>e. f e = ''_ffi.cast('' @ sq @ t @ sq @ '', '' @ e @ '')'')
           \<and> (\<forall>e. g e = e)))"
proof -
  have total: "\<exists>conv. get_param_conversion cm t = Some conv"
    by (simp add: get_param_conversion_def split: option.splits)
  have registered: "\<forall>conv. cm t = Some conv \<longrightarrow> get_param_conversion cm t = Some conv"
    by (simp add: get_param_conversion_def)
  have bl: "butlast (u @ ''**'') = u @ ''*''"
    by (simp add: butlast_append)
  have double: "cm (u @ ''**'') = None \<longrightarrow>
        (\<exists>conv f g. get_param_conversion cm (u @ ''**'') = Some conv
           \<and> p_type conv = sq @ u @ ''**'' @ sq
           \<and> p_to_c conv = Some f \<and> c_to_p conv = Some g
           \<and> (\<forall>e. f e = ''[_ffi.cast('' @ sq @ u @ ''*'' @ sq @ '', x) for x in '' @ e @ '']'')
           \<and> (\<forall>e. g e = e))"
    using bl by (simp add: get_param_conversion_def endswith_append)
  have single: "cm t = None \<and> \<not> endswith ''**'' t \<longrightarrow>
        (\<exists>conv f g. get_param_conversion cm t = Some conv
           \<and> p_type conv = sq @ t @ sq
           \<and> p_to_c conv = Some f \<and> c_to_p conv = Some g
           \<and> (\<forall>e. f e = ''_ffi.cast('' @ sq @ t @ sq @ '', '' @ e @ '')'')
           \<and> (\<forall>e. g e = e))"
    by (simp add: get_param_conversion_def)
  from total registered double single show ?thesis by blast
qed

theorem get_param_conversion_total_witness:
  \<open>sample_conversion_map ''int'' = Some \<lparr>c_type = ''int'', p_type = ''int'', p_to_c = None, c_to_p = None\<rparr>
   \<and> get_param_conversion sample_conversion_map ''int''
       = Some \<lparr>c_type = ''int'', p_type = ''int'', p_to_c = None, c_to_p = None\<rparr>
   \<and> sample_conversion_map ''Foo **'' = None
   \<and> (\<exists>conv f g. get_param_conversion sample_conversion_map ''Foo **'' = Some conv
         \<and> p_type conv = sq @ ''Foo **'' @ sq \<and> p_to_c conv = Some f \<and> c_to_p conv = Some g
         \<and> f ''xs'' = ''[_ffi.cast('Foo *', x) for x in xs]'' \<and> g ''xs'' = ''xs'')
   \<and> sample_conversion_map ''Foo *'' = None \<and> \<not> endswith ''**'' ''Foo *''
   \<and> (\<exists>conv f g. get_param_conversion sample_conversion_map ''Foo *'' = Some conv
         \<and> p_type conv = sq @ ''Foo *'' @ sq \<and> p_to_c conv = Some f \<and> c_to_p conv = Some g
         \<and> f ''x'' = ''_ffi.cast('Foo *', x)'' \<and> g ''x'' = ''x'')\<close>
proof -
  have a: "sample_conversion_map ''int'' = Some \<lparr>c_type = ''int'', p_type = ''int'', p_to_c = None, c_to_p = None\<rparr>"
    by (simp add: sample_conversion_map_def)
  have b: "sample_conversion_map (''Foo '' @ ''**'') = None"
    by (simp add: sample_conversion_map_def)
  have c: "sample_conversion_map ''Foo *'' = None \<and> \<not> endswith ''**'' ''Foo *''"
    by (simp add: sample_conversion_map_def endswith_def)
  from a get_param_conversion_total [of sample_conversion_map "''int''" "''Foo ''"]
  have a': "get_param_conversion sample_conversion_map ''int''
       = Some \<lparr>c_type = ''int'', p_type = ''int'', p_to_c = None, c_to_p = None\<rparr>"
    by blast
  from b get_param_conversion_total [of sample_conversion_map "''int''" "''Foo ''"]
  obtain conv f g where b': "get_param_conversion sample_conversion_map (''Foo '' @ ''**'') = Some conv"
      "p_type conv = sq @ ''Foo '' @ ''**'' @ sq" "p_to_c conv = Some f" "c_to_p conv = Some g"
      "\<forall>e. f e = ''[_ffi.cast('' @ sq @ ''Foo '' @ ''*'' @ sq @ '', x) for x in '' @ e @ '']''" "\<forall>e. g e = e"
    by blast
  from c get_param_conversion_total [of sample_conversion_map "''Foo *''" "''Foo ''"]
  obtain conv2 f2 g2 where c': "get_param_conversion sample_conversion_map ''Foo *'' = Some conv2"
      "p_type conv2 = sq @ ''Foo *'' @ sq" "p_to_c conv2 = Some f2" "c_to_p conv2 = Some g2"
      "\<forall>e. f2 e = ''_ffi.cast('' @ sq @ ''Foo *'' @ sq @ '', '' @ e @ '')''" "\<forall>e. g2 e = e"
    by blast
  from b' have b'': "\<exists>conv f g. get_param_conversion sample_conversion_map ''Foo **'' = Some conv
         \<and> p_type conv = sq @ ''Foo **'' @ sq \<and> p_to_c conv = Some f \<and> c_to_p conv = Some g
         \<and> f ''xs'' = ''[_ffi.cast('Foo *', x) for x in xs]'' \<and> g ''xs'' = ''xs''"
    by simp
  from c' have c'': "\<exists>conv f g. get_param_conversion sample_conversion_map ''Foo *'' = Some conv
         \<and> p_type conv = sq @ ''Foo *'' @ sq \<and> p_to_c conv = Some f \<and> c_to_p conv = Some g
         \<and> f ''x'' = ''_ffi.cast('Foo *', x)'' \<and> g ''x'' = ''x''"
    by simp
  from a a' b b'' c c'' show ?thesis by simp
qed

text \<open>
  The claim as first stated (a cast in both directions) fails for \<^verbatim>\<open>Foo *\<close>: the native-to-host
  converter returns its argument unchanged.
\<close>

theorem unregistered_native_to_host_counterexample:
  \<open>map_option (\<lambda>conv. map_option (\<lambda>g. g ''x'') (c_to_p conv))
      (get_param_conversion sample_conversion_map ''Foo *'') = Some (Some ''x'')
   \<and> ''x'' \<noteq> ''_ffi.cast('Foo *', x)''\<close>
  by (simp add: get_param_conversion_def sample_conversion_map_def endswith_def)

lemma get_param_conversion_Some: "\<exists>conv. get_param_conversion cm t = Some conv \<and> (cm t = Some conv \<or> (cm t = None \<and> p_type conv = sq @ t @ sq))"
  by (simp add: get_param_conversion_def split: option.splits)

lemma param_tuple_host_type:
  "pconv (param_tuple cm t n) \<noteq> Some [] \<and>
   (\<exists>conv. get_param_conversion cm t = Some conv \<and> ptype (param_tuple cm t n) = p_type conv
       \<and> (cm t = Some conv \<or> (cm t = None \<and> p_type conv = sq @ t @ sq)))"
proof -
  obtain conv where c: "get_param_conversion cm t = Some conv"
     "cm t = Some conv \<or> (cm t = None \<and> p_type conv = sq @ t @ sq)"
    using get_param_conversion_Some by blast
  show ?thesis using c by (auto simp: param_tuple_def split: option.splits)
qed

lemma get_param_is_param_tuple:
  "get_param cm s = Some p \<Longrightarrow> \<exists>t n. p = param_tuple cm t n"
  by (auto simp: get_param_def Let_def split: if_splits)

text \<open>
  Claim C10. \<open>get_param_conversion\<close> never returns the absent value, so the branch of
  \<open>get_param\<close> that would give the host type \<^verbatim>\<open>Any\<close> (with an empty conversion statement) is never
  taken: the tuple of a classified parameter is never that branch's tuple, its conversion
  statement is never the empty text, and its host type is the host type of the Conversion found
  for its type, which is the registry's entry or the synthesized one.
\<close>

theorem any_fallback_unreachable:
  "get_param_conversion cm t \<noteq> None
   \<and> param_tuple cm t n \<noteq> (n, ''Any'', Some [], n)
   \<and> (\<forall>p. get_param cm s = Some p \<longrightarrow>
         pconv p \<noteq> Some [] \<and>
         (\<exists>pt conv. get_param_conversion cm pt = Some conv \<and> ptype p = p_type conv
            \<and> (cm pt = Some conv \<or> (cm pt = None \<and> p_type conv = sq @ pt @ sq))))"
proof -
  have a: "get_param_conversion cm t \<noteq> None"
    using get_param_conversion_Some [of cm t] by auto
  have b: "param_tuple cm t n \<noteq> (n, ''Any'', Some [], n)"
    using param_tuple_host_type [of cm t n] by auto
  have c: "\<forall>p. get_param cm s = Some p \<longrightarrow>
         pconv p \<noteq> Some [] \<and>
         (\<exists>pt conv. get_param_conversion cm pt = Some conv \<and> ptype p = p_type conv
            \<and> (cm pt = Some conv \<or> (cm pt = None \<and> p_type conv = sq @ pt @ sq)))"
  proof (intro allI impI)
    fix p assume "get_param cm s = Some p"
    then obtain pt n where "p = param_tuple cm pt n"
      using get_param_is_param_tuple by blast
    then show "pconv p \<noteq> Some [] \<and>
         (\<exists>pt conv. get_param_conversion cm pt = Some conv \<and> ptype p = p_type conv
            \<and> (cm pt = Some conv \<or> (cm pt = None \<and> p_type conv = sq @ pt @ sq)))"
      using param_tuple_host_type [of cm pt n] by blast
  qed
  from a b c show ?thesis by blast
qed

lemma get_param_TBox:
  "get_param sample_conversion_map ''TBox *result''
     = Some (''result'', sq @ ''TBox *'' @ sq,
             Some (''result_converted = _ffi.cast('TBox *', result)''), ''result_converted'')"
  by code_simp

theorem any_fallback_unreachable_witness:
  "get_param sample_conversion_map ''TBox *result''
     = Some (''result'', sq @ ''TBox *'' @ sq,
             Some (''result_converted = _ffi.cast('TBox *', result)''), ''result_converted'')
   \<and> get_param_conversion sample_conversion_map ''TBox *'' \<noteq> None
   \<and> pconv (''result'', sq @ ''TBox *'' @ sq,
             Some (''result_converted = _ffi.cast('TBox *', result)''), ''result_converted'') \<noteq> Some []
   \<and> (\<exists>pt conv. get_param_conversion sample_conversion_map pt = Some conv
         \<and> sq @ ''TBox *'' @ sq = p_type conv
         \<and> (sample_conversion_map pt = Some conv
              \<or> (sample_conversion_map pt = None \<and> p_type conv = sq @ pt @ sq)))"
  using any_fallback_unreachable [of sample_conversion_map "''TBox *''" "''result''" "''TBox *result''"]
        get_param_TBox
  by simp


section \<open>Properties of parameter classification\<close>

text \<open>
  Claim C9. The classifier returns the omit value for the bare token \<^verbatim>\<open>void\<close>; a parameter list
  that is exactly \<^verbatim>\<open>void\<close> is classified as the empty list, and the wrapper generated from it has
  an empty parameter list and passes no argument to the native function.
\<close>

theorem void_is_omitted:
  \<open>get_param cm ''void'' = None
   \<and> get_params cm ''void'' = []
   \<and> build_function_string fn rt (get_params cm ''void'') rc =
       (if rt = ''None''
        then todo_note fn @ ''def '' @ fn @ ''() -> None:\<newline>''
               @ ''    _lib.'' @ fn @ ''()''
        else todo_note fn @ ''def '' @ fn @ ''() -> '' @ rt @ '':\<newline>''
               @ ''    result = _lib.'' @ fn @ ''()\<newline>''
               @ or_empty (map_option (\<lambda>c. ''    result = '' @ c @ ''\<newline>'') rc)
               @ ''    return result'')\<close>
proof -
  have a: "get_param cm ''void'' = None"
    by (simp add: get_param_def lstrip_star_def startswith_def)
  have s: "strip ''void'' = ''void''"
    by (simp add: strip_def py_isspace_def)
  have b: "get_params cm ''void'' = []"
    by (simp add: get_params_def List.map_filter_simps a s)
  have c: \<open>build_function_string fn rt [] rc =
       (if rt = ''None''
        then todo_note fn @ ''def '' @ fn @ ''() -> None:\<newline>''
               @ ''    _lib.'' @ fn @ ''()''
        else todo_note fn @ ''def '' @ fn @ ''() -> '' @ rt @ '':\<newline>''
               @ ''    result = _lib.'' @ fn @ ''()\<newline>''
               @ or_empty (map_option (\<lambda>c. ''    result = '' @ c @ ''\<newline>'') rc)
               @ ''    return result'')\<close>
    by (cases rc)
       (simp_all add: build_function_string_def pop_result_def select_out_params_def or_empty_def)
  from a b c show ?thesis by simp
qed


section \<open>Properties of function synthesis\<close>

text \<open>
  The loop of lines 137-140 appends one piece per Output parameter to each of its three
  variables; the function text is then the definition with the loop resolved.
\<close>

lemma foldl_out_params:
  "foldl (\<lambda>(pc, rt, rm) out_param.
            (pc @ A out_param, rt @ B out_param, map_option (\<lambda>text. text @ C out_param) rm))
         (pc, rt, Some rm) outs
     = (pc @ concat (map A outs), rt @ concat (map B outs), Some (rm @ concat (map C outs)))"
  by (induction outs arbitrary: pc rt rm) simp_all

lemma build_function_string_unfold:
  \<open>build_function_string fn rt ps rc =
     (let rp = fst (pop_result ps);
          qs = snd (pop_result ps);
          outs = select_out_params qs;
          params = join '', '' (map (\<lambda>p. pname p @ '': '' @ ptype p) (filter (\<lambda>p. p \<notin> set outs) qs));
          pc = join ''\<newline>    '' (map (\<lambda>p. the (pconv p)) (filter (\<lambda>p. pconv p \<noteq> None \<and> p \<notin> set outs) qs))
                 @ (case rp of Some r \<Rightarrow> ''\<newline>    out_result = _ffi.new('' @ ptype r @ '')'' | None \<Rightarrow> [])
                 @ concat (map (\<lambda>p. ''\<newline>    '' @ pname p @ '' = _ffi.new('' @ ptype p @ '')'') outs);
          inner = join '', '' (map (\<lambda>pc. if pc \<in> set outs then pname pc else pexpr pc) qs)
                 @ (case rp of Some r \<Rightarrow> '', out_result'' | None \<Rightarrow> []);
          rm = or_empty (map_option (\<lambda>c. ''    result = '' @ c @ ''\<newline>'') rc)
                 @ (case rp of
                      Some r \<Rightarrow> (if rt = ''bool''
                                 then ''    if result:\<newline>        return out_result[0]\<newline>    raise Exception(f'C call went wrong: {result}')''
                                 else ''    return out_result[0]\<newline>'')
                    | None \<Rightarrow> ''    return result'')
                 @ concat (map (\<lambda>p. '', '' @ pname p) outs);
          rty = (case rp of Some r \<Rightarrow> ptype r | None \<Rightarrow> rt) @ concat (map (\<lambda>p. '', '' @ ptype p) outs);
          rty = (if outs \<noteq> [] then ''"Tuple['' @ rty @ '']"'' else rty);
          pc = (if pc \<noteq> [] then ''    '' @ pc @ ''\<newline>'' else pc)
      in if rty = ''None''
         then todo_note fn @ ''def '' @ fn @ ''('' @ params @ '') -> '' @ rty @ '':\<newline>'' @ pc
              @ ''    _lib.'' @ fn @ ''('' @ inner @ '')''
         else todo_note fn @ ''def '' @ fn @ ''('' @ params @ '') -> '' @ rty @ '':\<newline>'' @ pc
              @ ''    result = _lib.'' @ fn @ ''('' @ inner @ '')\<newline>'' @ rm)\<close>
  unfolding build_function_string_def Let_def
  by (cases "pop_result ps"; cases "fst (pop_result ps)"; cases rc)
     (simp_all add: foldl_out_params or_empty_def)

lemma select_out_params_nonempty:
  "select_out_params qs \<noteq> [] \<Longrightarrow>
     select_out_params qs = filter (\<lambda>p. endswith ''_out'' (pname p)) qs"
  by (simp add: select_out_params_def split: if_splits)

lemma not_selected_filter:
  assumes "select_out_params qs \<noteq> []"
  shows "filter (\<lambda>p. p \<notin> set (select_out_params qs)) qs
           = filter (\<lambda>p. \<not> endswith ''_out'' (pname p)) qs"
    and "filter (\<lambda>p. pconv p \<noteq> None \<and> p \<notin> set (select_out_params qs)) qs
           = filter (\<lambda>p. pconv p \<noteq> None \<and> \<not> endswith ''_out'' (pname p)) qs"
    and "map (\<lambda>p. if p \<in> set (select_out_params qs) then pname p else pexpr p) qs
           = map (\<lambda>p. if endswith ''_out'' (pname p) then pname p else pexpr p) qs"
  unfolding select_out_params_nonempty [OF assms]
  by (rule filter_cong map_cong; auto)+




text \<open>
  Claim C2, as amended. For a declaration with at least 2 parameters whose last parameter is
  named \<^verbatim>\<open>result\<close>, whose native return type resolves to \<^verbatim>\<open>bool\<close>, whose Result host type is not
  \<^verbatim>\<open>None\<close>, and for which no Output parameter is selected among the remaining parameters: the
  wrapper's signature is the remaining parameters, its declared return type is the Result
  parameter's host type, a buffer \<^verbatim>\<open>out_result\<close> is allocated and passed last, and after the call
  the wrapper returns \<^verbatim>\<open>out_result[0]\<close>, the buffer's contents with no conversion applied, if the
  status is true and raises an exception carrying the status otherwise. (A declaration with
  Output parameters beside the Result parameter is left out here; claim C1 is about it.)
\<close>

theorem result_with_boolean_status:
  assumes "1 < length ps" and "pname (last ps) = ''result''"
      and "select_out_params (butlast ps) = []" and "ptype (last ps) \<noteq> ''None''"
  shows \<open>build_function_string fn ''bool'' ps rc =
     todo_note fn @ ''def '' @ fn @ ''(''
       @ join '', '' (map (\<lambda>p. pname p @ '': '' @ ptype p) (butlast ps))
       @ '') -> '' @ ptype (last ps) @ '':\<newline>''
       @ ''    '' @ join ''\<newline>    '' (map (\<lambda>p. the (pconv p)) (filter (\<lambda>p. pconv p \<noteq> None) (butlast ps)))
       @ ''\<newline>    out_result = _ffi.new('' @ ptype (last ps) @ '')\<newline>''
       @ ''    result = _lib.'' @ fn @ ''('' @ join '', '' (map pexpr (butlast ps)) @ '', out_result)\<newline>''
       @ or_empty (map_option (\<lambda>c. ''    result = '' @ c @ ''\<newline>'') rc)
       @ ''    if result:\<newline>''
       @ ''        return out_result[0]\<newline>''
       @ ''    raise Exception(f'C call went wrong: {result}')''\<close>
proof -
  have pr: "pop_result ps = (Some (last ps), butlast ps)"
    using assms(1,2) by (simp add: pop_result_def)
  show ?thesis
    unfolding build_function_string_unfold using assms(3,4) by (simp add: pr Let_def)
qed

text \<open>The theorem at the declaration \<^verbatim>\<open>extern bool tbox_make(Span *s, Period *p, TBox *result);\<close>.\<close>

theorem result_with_boolean_status_witness:
  \<open>let ps = get_params sample_conversion_map ''Span *s, Period *p, TBox *result''
   in 1 < length ps \<and> pname (last ps) = ''result''
      \<and> select_out_params (butlast ps) = [] \<and> ptype (last ps) \<noteq> ''None''
      \<and> build_function_string ''tbox_make'' ''bool'' ps None =
            ''def tbox_make(s: 'Span *', p: 'Period *') -> 'TBox *':\<newline>''
          @ ''    s_converted = _ffi.cast('Span *', s)\<newline>''
          @ ''    p_converted = _ffi.cast('Period *', p)\<newline>''
          @ ''    out_result = _ffi.new('TBox *')\<newline>''
          @ ''    result = _lib.tbox_make(s_converted, p_converted, out_result)\<newline>''
          @ ''    if result:\<newline>''
          @ ''        return out_result[0]\<newline>''
          @ ''    raise Exception(f'C call went wrong: {result}')''\<close>
proof -
  define ps where "ps = get_params sample_conversion_map ''Span *s, Period *p, TBox *result''"
  have ev: "ps = [(''s'', sq @ ''Span *'' @ sq, Some ''s_converted = _ffi.cast('Span *', s)'', ''s_converted''),
                  (''p'', sq @ ''Period *'' @ sq, Some ''p_converted = _ffi.cast('Period *', p)'', ''p_converted''),
                  (''result'', sq @ ''TBox *'' @ sq, Some ''result_converted = _ffi.cast('TBox *', result)'', ''result_converted'')]"
    unfolding ps_def by code_simp
  have h: "1 < length ps" "pname (last ps) = ''result''"
          "select_out_params (butlast ps) = []" "ptype (last ps) \<noteq> ''None''"
    unfolding ev by (simp_all add: select_out_params_def endswith_def)
  show ?thesis
    unfolding Let_def ps_def [symmetric]
    using h result_with_boolean_status [OF h, of "''tbox_make''" None]
    unfolding ev
    by (simp add: todo_note_def manual_functions_def or_empty_def)
qed

text \<open>
  The claim as first stated fails in two ways. For \<^verbatim>\<open>extern bool f(int a, char *result);\<close> the
  registry holds a native-to-host converter for \<^verbatim>\<open>char *\<close>, yet the wrapper returns the raw
  \<^verbatim>\<open>out_result[0]\<close>: the contents are not converted. For \<^verbatim>\<open>extern bool g(int a, void result);\<close> the
  Result host type is \<^verbatim>\<open>None\<close>, and the wrapper neither tests the status nor returns the buffer's
  contents nor raises.
\<close>

theorem result_returned_unconverted_counterexample:
  \<open>map (function_string sample_conversion_map)
       (finditer f_regex (flatten ''extern bool f(int a, char *result);''))
   = [''def f(a: int) -> str:\<newline>''
    @ ''    \<newline>''
    @ ''    out_result = _ffi.new(str)\<newline>''
    @ ''    result = _lib.f(a, out_result)\<newline>''
    @ ''    if result:\<newline>''
    @ ''        return out_result[0]\<newline>''
    @ ''    raise Exception(f'C call went wrong: {result}')'']
   \<and> map_option (\<lambda>conversion. map_option (\<lambda>g. g ''out_result[0]'') (c_to_p conversion))
        (sample_conversion_map ''char *'')
      = Some (Some ''_ffi.string(out_result[0]).decode('utf-8')'')
   \<and> map (function_string sample_conversion_map)
       (finditer f_regex (flatten ''extern bool g(int a, void result);''))
   = [''def g(a: int) -> None:\<newline>''
    @ ''    \<newline>''
    @ ''    out_result = _ffi.new(None)\<newline>''
    @ ''    _lib.g(a, out_result)'']\<close>
proof -
  have a: \<open>map (function_string sample_conversion_map)
       (finditer f_regex (flatten ''extern bool f(int a, char *result);''))
   = [''def f(a: int) -> str:\<newline>''
    @ ''    \<newline>''
    @ ''    out_result = _ffi.new(str)\<newline>''
    @ ''    result = _lib.f(a, out_result)\<newline>''
    @ ''    if result:\<newline>''
    @ ''        return out_result[0]\<newline>''
    @ ''    raise Exception(f'C call went wrong: {result}')'']\<close>
    by code_simp
  have b: \<open>map_option (\<lambda>conversion. map_option (\<lambda>g. g ''out_result[0]'') (c_to_p conversion))
        (sample_conversion_map ''char *'')
      = Some (Some ''_ffi.string(out_result[0]).decode('utf-8')'')\<close>
    by (simp add: sample_conversion_map_def)
  have c: \<open>map (function_string sample_conversion_map)
       (finditer f_regex (flatten ''extern bool g(int a, void result);''))
   = [''def g(a: int) -> None:\<newline>''
    @ ''    \<newline>''
    @ ''    out_result = _ffi.new(None)\<newline>''
    @ ''    _lib.g(a, out_result)'']\<close>
    by code_simp
  from a b c show ?thesis by (intro conjI)
qed

text \<open>
  Claim C4, as amended. For a declaration with at least 2 parameters, no Result carrier and at
  least one parameter whose name ends in \<^verbatim>\<open>_out\<close>: these parameters are the Output parameters, in
  declared order; they are left out of the signature, stay at their position in the native call
  (passed by name, each bound to a buffer allocated before the call), and the wrapper returns
  the (possibly converted) primary result followed by each Output buffer itself, by name, in
  declared order; the declared return type is the tuple type of the native return type and the
  Outputs' host types. The buffers are neither dereferenced nor converted.
\<close>

theorem output_parameters_tuple:
  assumes "1 < length ps" and "pname (last ps) \<noteq> ''result''"
      and "select_out_params ps \<noteq> []"
  shows \<open>select_out_params ps = filter (\<lambda>p. endswith ''_out'' (pname p)) ps
   \<and> build_function_string fn rt ps rc =
     todo_note fn @ ''def '' @ fn @ ''(''
       @ join '', '' (map (\<lambda>p. pname p @ '': '' @ ptype p)
                          (filter (\<lambda>p. \<not> endswith ''_out'' (pname p)) ps))
       @ '') -> "Tuple['' @ rt
       @ concat (map (\<lambda>p. '', '' @ ptype p) (select_out_params ps)) @ '']":\<newline>''
       @ ''    ''
       @ join ''\<newline>    '' (map (\<lambda>p. the (pconv p))
              (filter (\<lambda>p. pconv p \<noteq> None \<and> \<not> endswith ''_out'' (pname p)) ps))
       @ concat (map (\<lambda>p. ''\<newline>    '' @ pname p @ '' = _ffi.new('' @ ptype p @ '')'')
                     (select_out_params ps))
       @ ''\<newline>''
       @ ''    result = _lib.'' @ fn @ ''(''
       @ join '', '' (map (\<lambda>p. if endswith ''_out'' (pname p) then pname p else pexpr p) ps)
       @ '')\<newline>''
       @ or_empty (map_option (\<lambda>c. ''    result = '' @ c @ ''\<newline>'') rc)
       @ ''    return result''
       @ concat (map (\<lambda>p. '', '' @ pname p) (select_out_params ps))\<close>
    (is "_ \<and> _ = ?text")
proof -
  have pr: "pop_result ps = (None, ps)"
    using assms(2) by (simp add: pop_result_def)
  have sel: "select_out_params ps = filter (\<lambda>p. endswith ''_out'' (pname p)) ps"
    using assms(3) by (rule select_out_params_nonempty)
  have ex: "\<exists>p. p \<in> set (select_out_params ps)"
    using assms(3) by (cases "select_out_params ps") auto
  have body: "build_function_string fn rt ps rc = ?text"
    unfolding build_function_string_unfold Let_def pr fst_conv snd_conv
              not_selected_filter [OF assms(3)] option.case
    using assms(3) ex by simp
  show ?thesis
    using sel body by simp
qed

text \<open>
  The theorem at the parameters of \<^verbatim>\<open>periodset_timestamps\<close>, with \<^verbatim>\<open>count\<close> carrying the suffix.
\<close>

theorem output_parameters_tuple_witness:
  \<open>let ps = get_params sample_conversion_map ''PeriodSet *ps, TimestampTz **times, int *count_out''
   in 1 < length ps \<and> pname (last ps) \<noteq> ''result''
      \<and> select_out_params ps = [(''count_out'', sq @ ''int *'' @ sq,
              Some ''count_out_converted = _ffi.cast('int *', count_out)'', ''count_out_converted'')]
      \<and> build_function_string ''periodset_timestamps'' ''int'' ps None =
            ''#TODO count is an output parameter.\<newline>''
          @ ''def periodset_timestamps(ps: 'PeriodSet *', times: 'TimestampTz **') -> "Tuple[int, 'int *']":\<newline>''
          @ ''    ps_converted = _ffi.cast('PeriodSet *', ps)\<newline>''
          @ ''    times_converted = [_ffi.cast('TimestampTz *', x) for x in times]\<newline>''
          @ ''    count_out = _ffi.new('int *')\<newline>''
          @ ''    result = _lib.periodset_timestamps(ps_converted, times_converted, count_out)\<newline>''
          @ ''    return result, count_out''\<close>
proof -
  define ps where
    "ps = get_params sample_conversion_map ''PeriodSet *ps, TimestampTz **times, int *count_out''"
  have ev: "ps = [(''ps'', sq @ ''PeriodSet *'' @ sq,
                   Some ''ps_converted = _ffi.cast('PeriodSet *', ps)'', ''ps_converted''),
                  (''times'', sq @ ''TimestampTz **'' @ sq,
                   Some ''times_converted = [_ffi.cast('TimestampTz *', x) for x in times]'',
                   ''times_converted''),
                  (''count_out'', sq @ ''int *'' @ sq,
                   Some ''count_out_converted = _ffi.cast('int *', count_out)'',
                   ''count_out_converted'')]"
    unfolding ps_def by code_simp
  have sel: "select_out_params ps = [(''count_out'', sq @ ''int *'' @ sq,
              Some ''count_out_converted = _ffi.cast('int *', count_out)'', ''count_out_converted'')]"
    unfolding ev by (simp add: select_out_params_def endswith_def)
  have h: "1 < length ps" "pname (last ps) \<noteq> ''result''" "select_out_params ps \<noteq> []"
    unfolding sel unfolding ev by simp_all
  show ?thesis
    unfolding Let_def ps_def [symmetric]
    using h(1,2) sel output_parameters_tuple [OF h, of "''periodset_timestamps''" "''int''" None]
    unfolding ev
    by (simp add: todo_note_def manual_functions_def or_empty_def endswith_def)
qed

text \<open>
  The claim as first stated (the tuple holds each Output buffer's converted contents) fails:
  the wrapper returns the buffer \<^verbatim>\<open>count_out\<close> itself, typed as the pointer \<^verbatim>\<open>'int *'\<close>.
\<close>

theorem output_buffer_returned_counterexample:
  \<open>map (function_string sample_conversion_map)
       (finditer f_regex (flatten ''extern Period **periodset_periods(PeriodSet *ps, int *count_out);''))
   = [''#TODO count is an output parameter.\<newline>''
    @ ''def periodset_periods(ps: 'PeriodSet *') -> "Tuple['Period **', 'int *']":\<newline>''
    @ ''    ps_converted = _ffi.cast('PeriodSet *', ps)\<newline>''
    @ ''    count_out = _ffi.new('int *')\<newline>''
    @ ''    result = _lib.periodset_periods(ps_converted, count_out)\<newline>''
    @ ''    return result, count_out'']\<close>
  by code_simp

text \<open>
  Claim C1. A declaration with a trailing \<^verbatim>\<open>result\<close> parameter and Output parameters among the
  others has to be rejected. The generator has no rejecting path: for
  \<^verbatim>\<open>extern bool f(int a, int b_out, TBox *result);\<close> and for the same declaration returning
  \<^verbatim>\<open>int\<close> it returns a text, and line 140 has appended the Output's name to the text of the
  Result branch, after the \<^verbatim>\<open>raise\<close> in the first and on a line of its own after the \<^verbatim>\<open>return\<close> in
  the second. Neither text is a function definition of the host language, so the generator
  does what the claim forbids.
\<close>

theorem result_and_output_malformed_text:
  \<open>map (function_string sample_conversion_map)
       (finditer f_regex (flatten ''extern bool f(int a, int b_out, TBox *result);''))
   = [''def f(a: int) -> "Tuple['TBox *', int]":\<newline>''
    @ ''    \<newline>''
    @ ''    out_result = _ffi.new('TBox *')\<newline>''
    @ ''    b_out = _ffi.new(int)\<newline>''
    @ ''    result = _lib.f(a, b_out, out_result)\<newline>''
    @ ''    if result:\<newline>''
    @ ''        return out_result[0]\<newline>''
    @ ''    raise Exception(f'C call went wrong: {result}'), b_out'']
   \<and> map (function_string sample_conversion_map)
       (finditer f_regex (flatten ''extern int f(int a, int b_out, TBox *result);''))
   = [''def f(a: int) -> "Tuple['TBox *', int]":\<newline>''
    @ ''    \<newline>''
    @ ''    out_result = _ffi.new('TBox *')\<newline>''
    @ ''    b_out = _ffi.new(int)\<newline>''
    @ ''    result = _lib.f(a, b_out, out_result)\<newline>''
    @ ''    return out_result[0]\<newline>''
    @ '', b_out'']\<close>
proof -
  have a: \<open>map (function_string sample_conversion_map)
       (finditer f_regex (flatten ''extern bool f(int a, int b_out, TBox *result);''))
   = [''def f(a: int) -> "Tuple['TBox *', int]":\<newline>''
    @ ''    \<newline>''
    @ ''    out_result = _ffi.new('TBox *')\<newline>''
    @ ''    b_out = _ffi.new(int)\<newline>''
    @ ''    result = _lib.f(a, b_out, out_result)\<newline>''
    @ ''    if result:\<newline>''
    @ ''        return out_result[0]\<newline>''
    @ ''    raise Exception(f'C call went wrong: {result}'), b_out'']\<close>
    by code_simp
  have b: \<open>map (function_string sample_conversion_map)
       (finditer f_regex (flatten ''extern int f(int a, int b_out, TBox *result);''))
   = [''def f(a: int) -> "Tuple['TBox *', int]":\<newline>''
    @ ''    \<newline>''
    @ ''    out_result = _ffi.new('TBox *')\<newline>''
    @ ''    b_out = _ffi.new(int)\<newline>''
    @ ''    result = _lib.f(a, b_out, out_result)\<newline>''
    @ ''    return out_result[0]\<newline>''
    @ '', b_out'']\<close>
    by code_simp
  from a b show ?thesis by (intro conjI)
qed


section \<open>Properties of declaration extraction\<close>

text \<open>
  What the matcher returns, construct by construct: each result is the input state with a
  matched prefix removed from the text. For a quantified character class the prefix is any run
  of characters of the class (at least one for \<^verbatim>\<open>+\<close>).
\<close>

lemma rmatch_Lit_iff:
  "x \<in> set (rmatch (Lit w) (g, s)) \<longleftrightarrow> (\<exists>r. s = w @ r \<and> x = (g, r))"
proof
  assume "x \<in> set (rmatch (Lit w) (g, s))"
  then have t: "take (length w) s = w" and x: "x = (g, drop (length w) s)"
    by (auto simp: startswith_def split: if_splits)
  have "s = w @ drop (length w) s"
    using t append_take_drop_id [of "length w" s] by simp
  with x show "\<exists>r. s = w @ r \<and> x = (g, r)" by blast
next
  assume "\<exists>r. s = w @ r \<and> x = (g, r)"
  then show "x \<in> set (rmatch (Lit w) (g, s))"
    by (auto simp: startswith_def)
qed

lemma rmatch_Seq_iff:
  "x \<in> set (rmatch (Seq a b) st) \<longleftrightarrow> (\<exists>m \<in> set (rmatch a st). x \<in> set (rmatch b m))"
  by auto

lemma rmatch_Opt_iff:
  "x \<in> set (rmatch (Opt a) st) \<longleftrightarrow> x \<in> set (rmatch a st) \<or> x = st"
  by auto

lemma rmatch_Grp_iff:
  "x \<in> set (rmatch (Grp n a) (g, s)) \<longleftrightarrow>
     (\<exists>g0 r. (g0, r) \<in> set (rmatch a (g, s)) \<and> x = ((n, take (length s - length r) s) # g0, r))"
  by (force simp: image_iff)

lemma star_iter_Cls_iff:
  "length s \<le> n \<Longrightarrow>
   x \<in> set (star_iter n (rmatch (Cls p)) (g, s)) \<longleftrightarrow>
     (\<exists>w r. s = w @ r \<and> (\<forall>c \<in> set w. p c) \<and> x = (g, r))"
proof (induction n arbitrary: s)
  case 0
  then show ?case by auto
next
  case (Suc n)
  show ?case
  proof (cases s)
    case Nil
    then show ?thesis by auto
  next
    case (Cons c cs)
    show ?thesis
    proof (cases "p c")
      case True
      have len: "length cs \<le> n" using Suc.prems Cons by simp
      have "x \<in> set (star_iter (Suc n) (rmatch (Cls p)) (g, s)) \<longleftrightarrow>
              x \<in> set (star_iter n (rmatch (Cls p)) (g, cs)) \<or> x = (g, s)"
        using Cons True by auto
      also have "\<dots> \<longleftrightarrow> (\<exists>w r. cs = w @ r \<and> (\<forall>c \<in> set w. p c) \<and> x = (g, r)) \<or> x = (g, s)"
        by (simp only: Suc.IH [OF len])
      also have "\<dots> \<longleftrightarrow> (\<exists>w r. s = w @ r \<and> (\<forall>c \<in> set w. p c) \<and> x = (g, r))"
      proof
        assume "(\<exists>w r. cs = w @ r \<and> (\<forall>c \<in> set w. p c) \<and> x = (g, r)) \<or> x = (g, s)"
        then show "\<exists>w r. s = w @ r \<and> (\<forall>c \<in> set w. p c) \<and> x = (g, r)"
        proof
          assume "\<exists>w r. cs = w @ r \<and> (\<forall>c \<in> set w. p c) \<and> x = (g, r)"
          then obtain w r where "cs = w @ r" "\<forall>c \<in> set w. p c" "x = (g, r)" by blast
          then have "s = (c # w) @ r \<and> (\<forall>c \<in> set (c # w). p c) \<and> x = (g, r)"
            using Cons True by simp
          then show ?thesis by blast
        next
          assume "x = (g, s)"
          then have "s = [] @ s \<and> (\<forall>c \<in> set []. p c) \<and> x = (g, s)" by simp
          then show ?thesis by blast
        qed
      next
        assume "\<exists>w r. s = w @ r \<and> (\<forall>c \<in> set w. p c) \<and> x = (g, r)"
        then obtain w r where wr: "s = w @ r" "\<forall>c \<in> set w. p c" "x = (g, r)" by blast
        show "(\<exists>w r. cs = w @ r \<and> (\<forall>c \<in> set w. p c) \<and> x = (g, r)) \<or> x = (g, s)"
        proof (cases w)
          case Nil
          then show ?thesis using wr by simp
        next
          case (Cons d w')
          then have "cs = w' @ r \<and> (\<forall>c \<in> set w'. p c) \<and> x = (g, r)"
            using wr \<open>s = c # cs\<close> by simp
          then show ?thesis by blast
        qed
      qed
      finally show ?thesis .
    next
      case False
      have "x \<in> set (star_iter (Suc n) (rmatch (Cls p)) (g, s)) \<longleftrightarrow> x = (g, s)"
        using Cons False by simp
      also have "\<dots> \<longleftrightarrow> (\<exists>w r. s = w @ r \<and> (\<forall>c \<in> set w. p c) \<and> x = (g, r))"
      proof
        assume "x = (g, s)"
        then have "s = [] @ s \<and> (\<forall>c \<in> set []. p c) \<and> x = (g, s)" by simp
        then show "\<exists>w r. s = w @ r \<and> (\<forall>c \<in> set w. p c) \<and> x = (g, r)" by blast
      next
        assume "\<exists>w r. s = w @ r \<and> (\<forall>c \<in> set w. p c) \<and> x = (g, r)"
        then obtain w r where wr: "s = w @ r" "\<forall>c \<in> set w. p c" "x = (g, r)" by blast
        have "w = []"
        proof (cases w)
          case Nil then show ?thesis .
        next
          case (Cons d w')
          then have "d = c" using wr(1) \<open>s = c # cs\<close> by simp
          then show ?thesis using wr(2) Cons False by simp
        qed
        then show "x = (g, s)" using wr by simp
      qed
      finally show ?thesis .
    qed
  qed
qed

lemma rmatch_Star_Cls_iff:
  "x \<in> set (rmatch (Star (Cls p)) (g, s)) \<longleftrightarrow>
     (\<exists>w r. s = w @ r \<and> (\<forall>c \<in> set w. p c) \<and> x = (g, r))"
  using star_iter_Cls_iff [of s "length s" x p g] by simp

lemma rmatch_Plus_Cls_iff:
  "x \<in> set (rmatch (Plus (Cls p)) (g, s)) \<longleftrightarrow>
     (\<exists>w r. w \<noteq> [] \<and> s = w @ r \<and> (\<forall>c \<in> set w. p c) \<and> x = (g, r))"
proof (cases s)
  case Nil
  then show ?thesis by auto
next
  case (Cons c cs)
  show ?thesis
  proof (cases "p c")
    case True
    have "x \<in> set (rmatch (Plus (Cls p)) (g, s)) \<longleftrightarrow>
            x \<in> set (star_iter (length cs) (rmatch (Cls p)) (g, cs))"
      using Cons True by simp
    also have "\<dots> \<longleftrightarrow> (\<exists>w r. cs = w @ r \<and> (\<forall>c \<in> set w. p c) \<and> x = (g, r))"
      by (rule star_iter_Cls_iff) simp
    also have "\<dots> \<longleftrightarrow> (\<exists>w r. w \<noteq> [] \<and> s = w @ r \<and> (\<forall>c \<in> set w. p c) \<and> x = (g, r))"
    proof
      assume "\<exists>w r. cs = w @ r \<and> (\<forall>c \<in> set w. p c) \<and> x = (g, r)"
      then obtain w r where "cs = w @ r" "\<forall>c \<in> set w. p c" "x = (g, r)" by blast
      then have "c # w \<noteq> [] \<and> s = (c # w) @ r \<and> (\<forall>c \<in> set (c # w). p c) \<and> x = (g, r)"
        using Cons True by simp
      then show "\<exists>w r. w \<noteq> [] \<and> s = w @ r \<and> (\<forall>c \<in> set w. p c) \<and> x = (g, r)" by blast
    next
      assume "\<exists>w r. w \<noteq> [] \<and> s = w @ r \<and> (\<forall>c \<in> set w. p c) \<and> x = (g, r)"
      then obtain w r where wr: "w \<noteq> []" "s = w @ r" "\<forall>c \<in> set w. p c" "x = (g, r)" by blast
      then obtain d w' where "w = d # w'" by (cases w) auto
      then have "cs = w' @ r \<and> (\<forall>c \<in> set w'. p c) \<and> x = (g, r)"
        using wr Cons by simp
      then show "\<exists>w r. cs = w @ r \<and> (\<forall>c \<in> set w. p c) \<and> x = (g, r)" by blast
    qed
    finally show ?thesis .
  next
    case False
    have "x \<notin> set (rmatch (Plus (Cls p)) (g, s))"
      using Cons False by simp
    moreover have "\<not> (\<exists>w r. w \<noteq> [] \<and> s = w @ r \<and> (\<forall>c \<in> set w. p c) \<and> x = (g, r))"
    proof
      assume "\<exists>w r. w \<noteq> [] \<and> s = w @ r \<and> (\<forall>c \<in> set w. p c) \<and> x = (g, r)"
      then obtain w r where wr: "w \<noteq> []" "s = w @ r" "\<forall>c \<in> set w. p c" by blast
      then obtain d w' where w: "w = d # w'" by (cases w) auto
      then have "d = c" using wr(2) Cons by simp
      then show False using wr(3) w False by simp
    qed
    ultimately show ?thesis by blast
  qed
qed


declare rmatch.simps [simp del]

lemma in_params_class_simps:
  "is_word c \<Longrightarrow> in_params_class c" "in_params_class CHR '' ''" "in_params_class CHR ''*''"
  "is_star c \<Longrightarrow> in_params_class c"
  by (simp_all add: in_params_class_def is_star_def)

lemma return_type_shape:
  assumes "(g', r) \<in> set (rmatch (Seq (Opt (Lit ''const ''))
            (Seq (Plus (Cls is_word)) (Opt (Seq (Lit '' '') (Plus (Cls is_star)))))) (g, s))"
  shows "g' = g \<and> (\<exists>w. w \<noteq> [] \<and> s = w @ r \<and> (\<forall>c \<in> set w. in_params_class c))"
proof -
  from assms obtain ga sa where
      a: "(ga, sa) \<in> set (rmatch (Opt (Lit ''const '')) (g, s))"
      and b: "(g', r) \<in> set (rmatch (Seq (Plus (Cls is_word))
                 (Opt (Seq (Lit '' '') (Plus (Cls is_star))))) (ga, sa))"
    unfolding rmatch_Seq_iff [of _ "Opt (Lit ''const '')"] by auto
  from a have ga: "ga = g" and sa: "s = sa \<or> s = ''const '' @ sa"
    unfolding rmatch_Opt_iff rmatch_Lit_iff by auto
  from b obtain gb sb where
      c: "(gb, sb) \<in> set (rmatch (Plus (Cls is_word)) (ga, sa))"
      and d: "(g', r) \<in> set (rmatch (Opt (Seq (Lit '' '') (Plus (Cls is_star)))) (gb, sb))"
    unfolding rmatch_Seq_iff [of _ "Plus (Cls is_word)"] by auto
  from c obtain w where gb: "gb = ga" and w: "w \<noteq> []" "sa = w @ sb" "\<forall>c \<in> set w. is_word c"
    unfolding rmatch_Plus_Cls_iff by auto
  from d have "(g', r) = (gb, sb) \<or> (g', r) \<in> set (rmatch (Seq (Lit '' '') (Plus (Cls is_star))) (gb, sb))"
    unfolding rmatch_Opt_iff by auto
  then have e: "g' = gb \<and> (sb = r \<or> (\<exists>st. st \<noteq> [] \<and> sb = '' '' @ st @ r \<and> (\<forall>c \<in> set st. is_star c)))"
  proof
    assume "(g', r) = (gb, sb)" then show ?thesis by simp
  next
    assume "(g', r) \<in> set (rmatch (Seq (Lit '' '') (Plus (Cls is_star))) (gb, sb))"
    then obtain gc sc where "(gc, sc) \<in> set (rmatch (Lit '' '') (gb, sb))"
        "(g', r) \<in> set (rmatch (Plus (Cls is_star)) (gc, sc))"
      unfolding rmatch_Seq_iff [of _ "Lit '' ''"] by auto
    then show ?thesis
      unfolding rmatch_Lit_iff rmatch_Plus_Cls_iff by auto
  qed
  have cw: "\<forall>c \<in> set ''const ''. in_params_class c"
    by (simp add: in_params_class_def is_word_def)
  from e have "\<exists>p. sb = p @ r \<and> (\<forall>c \<in> set p. in_params_class c)"
  proof (elim conjE disjE exE)
    assume "sb = r"
    then have "sb = [] @ r \<and> (\<forall>c \<in> set []. in_params_class c)" by simp
    then show ?thesis by blast
  next
    fix st assume "st \<noteq> []" "sb = '' '' @ st @ r" "\<forall>c \<in> set st. is_star c"
    then have "sb = ('' '' @ st) @ r \<and> (\<forall>c \<in> set ('' '' @ st). in_params_class c)"
      by (auto simp: in_params_class_simps)
    then show ?thesis by blast
  qed
  then obtain p where p: "sb = p @ r" "\<forall>c \<in> set p. in_params_class c" by blast
  from sa obtain c0 where c0: "s = c0 @ sa" "\<forall>c \<in> set c0. in_params_class c"
  proof
    assume "s = sa"
    then have "s = [] @ sa \<and> (\<forall>c \<in> set []. in_params_class c)" by simp
    then show ?thesis using that by blast
  next
    assume "s = ''const '' @ sa"
    then show ?thesis using that cw by blast
  qed
  have "c0 @ w @ p \<noteq> [] \<and> s = (c0 @ w @ p) @ r \<and> (\<forall>c \<in> set (c0 @ w @ p). in_params_class c)"
    using c0 w p by (auto simp: in_params_class_simps)
  then show ?thesis using e gb ga by blast
qed


lemma f_regex_match_shape:
  assumes "(g, r) \<in> set (rmatch f_regex ([], s))"
  shows "\<exists>rt sp fn ps.
           s = ''extern '' @ rt @ sp @ fn @ ''('' @ ps @ '');'' @ r
         \<and> g = [(''params'', ps), (''function'', fn), (''returnType'', rt)]
         \<and> rt \<noteq> [] \<and> (\<forall>c \<in> set rt. in_params_class c)
         \<and> (\<forall>c \<in> set sp. in_params_class c)
         \<and> fn \<noteq> [] \<and> (\<forall>c \<in> set fn. is_word c)
         \<and> (\<forall>c \<in> set ps. in_params_class c)"
proof -
  from assms obtain g1 s1 where
      m1: "(g1, s1) \<in> set (rmatch (Lit ''extern '') ([], s))"
      and r1: "(g, r) \<in> set (rmatch
        (Seq (Grp ''returnType''
            (Seq (Opt (Lit ''const ''))
            (Seq (Plus (Cls is_word))
                 (Opt (Seq (Lit '' '') (Plus (Cls is_star)))))))
        (Seq (Opt (Lit '' ''))
        (Seq (Grp ''function'' (Plus (Cls is_word)))
        (Seq (Lit ''('')
        (Seq (Grp ''params'' (Star (Cls in_params_class)))
             (Lit '');'')))))) (g1, s1))"
    unfolding f_regex_def rmatch_Seq_iff [of _ "Lit ''extern ''"] by auto
  from m1 have g1: "g1 = []" and s1: "s = ''extern '' @ s1"
    unfolding rmatch_Lit_iff by auto
  from r1 obtain g2 s2 where
      m2: "(g2, s2) \<in> set (rmatch (Grp ''returnType''
            (Seq (Opt (Lit ''const ''))
            (Seq (Plus (Cls is_word))
                 (Opt (Seq (Lit '' '') (Plus (Cls is_star))))))) (g1, s1))"
      and r2: "(g, r) \<in> set (rmatch
        (Seq (Opt (Lit '' ''))
        (Seq (Grp ''function'' (Plus (Cls is_word)))
        (Seq (Lit ''('')
        (Seq (Grp ''params'' (Star (Cls in_params_class)))
             (Lit '');''))))) (g2, s2))"
    unfolding rmatch_Seq_iff [of _ "Grp _ _"] by auto
  from m2 obtain g2' where
      m2': "(g2', s2) \<in> set (rmatch (Seq (Opt (Lit ''const ''))
            (Seq (Plus (Cls is_word))
                 (Opt (Seq (Lit '' '') (Plus (Cls is_star)))))) (g1, s1))"
      and g2: "g2 = (''returnType'', take (length s1 - length s2) s1) # g2'"
    unfolding rmatch_Grp_iff by auto
  from return_type_shape [OF m2'] obtain rt where
      g2': "g2' = g1" and rt: "rt \<noteq> []" "s1 = rt @ s2" "\<forall>c \<in> set rt. in_params_class c"
    by blast
  have g2v: "g2 = [(''returnType'', rt)]"
    using g2 g2' g1 rt(2) by simp
  from r2 obtain g3 s3 where
      m3: "(g3, s3) \<in> set (rmatch (Opt (Lit '' '')) (g2, s2))"
      and r3: "(g, r) \<in> set (rmatch
        (Seq (Grp ''function'' (Plus (Cls is_word)))
        (Seq (Lit ''('')
        (Seq (Grp ''params'' (Star (Cls in_params_class)))
             (Lit '');'')))) (g3, s3))"
    unfolding rmatch_Seq_iff [of _ "Opt _"] by auto
  from m3 have g3: "g3 = g2" and s3: "s2 = s3 \<or> s2 = '' '' @ s3"
    unfolding rmatch_Opt_iff rmatch_Lit_iff by auto
  from s3 obtain sp where sp: "s2 = sp @ s3" "\<forall>c \<in> set sp. in_params_class c"
  proof
    assume "s2 = s3"
    then have "s2 = [] @ s3 \<and> (\<forall>c \<in> set []. in_params_class c)" by simp
    then show ?thesis using that by blast
  next
    assume "s2 = '' '' @ s3"
    moreover have "\<forall>c \<in> set '' ''. in_params_class c" by (simp add: in_params_class_def)
    ultimately show ?thesis using that by blast
  qed
  from r3 obtain g4 s4 where
      m4: "(g4, s4) \<in> set (rmatch (Grp ''function'' (Plus (Cls is_word))) (g3, s3))"
      and r4: "(g, r) \<in> set (rmatch
        (Seq (Lit ''('')
        (Seq (Grp ''params'' (Star (Cls in_params_class)))
             (Lit '');''))) (g4, s4))"
    unfolding rmatch_Seq_iff [of _ "Grp _ _"] by auto
  from m4 obtain fn where
      fn: "fn \<noteq> []" "s3 = fn @ s4" "\<forall>c \<in> set fn. is_word c"
      and g4: "g4 = (''function'', take (length s3 - length s4) s3) # g3"
    unfolding rmatch_Grp_iff rmatch_Plus_Cls_iff by auto
  have g4v: "g4 = [(''function'', fn), (''returnType'', rt)]"
    using g4 g3 g2v fn(2) by simp
  from r4 obtain g5 s5 where
      m5: "(g5, s5) \<in> set (rmatch (Lit ''('') (g4, s4))"
      and r5: "(g, r) \<in> set (rmatch
        (Seq (Grp ''params'' (Star (Cls in_params_class)))
             (Lit '');'')) (g5, s5))"
    unfolding rmatch_Seq_iff [of _ "Lit _"] by auto
  from m5 have g5: "g5 = g4" and s5: "s4 = ''('' @ s5"
    unfolding rmatch_Lit_iff by auto
  from r5 obtain g6 s6 where
      m6: "(g6, s6) \<in> set (rmatch (Grp ''params'' (Star (Cls in_params_class))) (g5, s5))"
      and r6: "(g, r) \<in> set (rmatch (Lit '');'') (g6, s6))"
    unfolding rmatch_Seq_iff [of _ "Grp _ _"] by auto
  from m6 obtain ps where
      ps: "s5 = ps @ s6" "\<forall>c \<in> set ps. in_params_class c"
      and g6: "g6 = (''params'', take (length s5 - length s6) s5) # g5"
    unfolding rmatch_Grp_iff rmatch_Star_Cls_iff by auto
  have g6v: "g6 = [(''params'', ps), (''function'', fn), (''returnType'', rt)]"
    using g6 g5 g4v ps(1) by simp
  from r6 have gv: "g = g6" and s6: "s6 = '');'' @ r"
    unfolding rmatch_Lit_iff by auto
  have "s = ''extern '' @ rt @ sp @ fn @ ''('' @ ps @ '');'' @ r"
    using s1 rt(2) sp(1) fn(2) s5 ps(1) s6 by simp
  then show ?thesis
    using gv g6v rt(1,3) sp(2) fn(1,3) ps(2) by blast
qed

text \<open>
  The scan: every reported match is the first result of the matcher at its start offset, the
  matches are reported in increasing, non-overlapping order, and a position at which the
  pattern matches is never skipped unless it lies inside a reported match.
\<close>

declare finditer_from.simps [simp del]

lemma finditer_from_Nil:
  "rmatch r ([], []) = [] \<Longrightarrow> finditer_from r pos [] = []"
  by (subst finditer_from.simps) simp

lemma finditer_from_no_match:
  "rmatch r ([], c # cs) = [] \<Longrightarrow> finditer_from r pos (c # cs) = finditer_from r (Suc pos) cs"
  by (subst finditer_from.simps) simp

lemma finditer_from_match:
  "rmatch r ([], s) = (g, rest) # ms \<Longrightarrow> 0 < length s - length rest \<Longrightarrow>
   finditer_from r pos s =
     (pos, pos + (length s - length rest), g)
       # finditer_from r (pos + (length s - length rest)) (drop (length s - length rest) s)"
  by (subst finditer_from.simps) (simp add: Let_def)

lemma finditer_from_empty_match:
  "rmatch r ([], s) = (g, rest) # ms \<Longrightarrow> length s - length rest = 0 \<Longrightarrow>
   finditer_from r pos s =
     (pos, pos, g) # (case s of [] \<Rightarrow> [] | c # cs \<Rightarrow> finditer_from r (Suc pos) cs)"
  by (subst finditer_from.simps) (simp add: Let_def)

lemma finditer_from_sound:
  "m \<in> set (finditer_from r pos s) \<Longrightarrow>
   \<exists>k g rest ms. k \<le> length s \<and> rmatch r ([], drop k s) = (g, rest) # ms
      \<and> m = (pos + k, pos + k + (length s - k - length rest), g)"
proof (induction "length s" arbitrary: s pos rule: less_induct)
  case less
  show ?case
  proof (cases "rmatch r ([], s)")
    case Nil
    show ?thesis
    proof (cases s)
      case Nil
      with \<open>rmatch r ([], s) = []\<close> less.prems show ?thesis
        by (simp add: finditer_from_Nil)
    next
      case (Cons c cs)
      with \<open>rmatch r ([], s) = []\<close> less.prems
      have "m \<in> set (finditer_from r (Suc pos) cs)"
        by (simp add: finditer_from_no_match)
      from less.hyps [OF _ this] Cons obtain k g rest ms where
        "k \<le> length cs" "rmatch r ([], drop k cs) = (g, rest) # ms"
        "m = (Suc pos + k, Suc pos + k + (length cs - k - length rest), g)"
        by auto
      then have "Suc k \<le> length s \<and> rmatch r ([], drop (Suc k) s) = (g, rest) # ms
         \<and> m = (pos + Suc k, pos + Suc k + (length s - Suc k - length rest), g)"
        using Cons by simp
      then show ?thesis by blast
    qed
  next
    case (Cons x ms)
    obtain g rest where x: "x = (g, rest)" by (cases x)
    let ?n = "length s - length rest"
    have hd: "0 \<le> length s \<and> rmatch r ([], drop 0 s) = (g, rest) # ms
         \<and> (pos, pos + ?n, g) = (pos + 0, pos + 0 + (length s - 0 - length rest), g)"
      using Cons x by simp
    show ?thesis
    proof (cases "0 < ?n")
      case True
      from finditer_from_match [of r s g rest ms pos] Cons x True less.prems
      have "m = (pos, pos + ?n, g) \<or> m \<in> set (finditer_from r (pos + ?n) (drop ?n s))"
        by simp
      then show ?thesis
      proof
        assume "m = (pos, pos + ?n, g)"
        with hd show ?thesis by blast
      next
        assume a: "m \<in> set (finditer_from r (pos + ?n) (drop ?n s))"
        have "length (drop ?n s) < length s" using True by simp
        from less.hyps [OF this a] obtain k g' rest' ms' where
          k: "k \<le> length (drop ?n s)" "rmatch r ([], drop k (drop ?n s)) = (g', rest') # ms'"
          "m = (pos + ?n + k, pos + ?n + k + (length (drop ?n s) - k - length rest'), g')"
          by auto
        have "?n + k \<le> length s \<and> rmatch r ([], drop (?n + k) s) = (g', rest') # ms'
           \<and> m = (pos + (?n + k), pos + (?n + k) + (length s - (?n + k) - length rest'), g')"
          using k by (simp add: add.commute)
        then show ?thesis by blast
      qed
    next
      case False
      then have n0: "?n = 0" by simp
      from finditer_from_empty_match [of r s g rest ms pos] Cons x n0 less.prems
      have "m = (pos, pos, g) \<or>
            m \<in> set (case s of [] \<Rightarrow> [] | c # cs \<Rightarrow> finditer_from r (Suc pos) cs)"
        by simp
      then show ?thesis
      proof
        assume "m = (pos, pos, g)"
        with hd n0 show ?thesis by (metis add.right_neutral)
      next
        assume a: "m \<in> set (case s of [] \<Rightarrow> [] | c # cs \<Rightarrow> finditer_from r (Suc pos) cs)"
        then obtain c cs where s: "s = c # cs" and a': "m \<in> set (finditer_from r (Suc pos) cs)"
          by (cases s) auto
        from less.hyps [OF _ a'] s obtain k g' rest' ms' where
          "k \<le> length cs" "rmatch r ([], drop k cs) = (g', rest') # ms'"
          "m = (Suc pos + k, Suc pos + k + (length cs - k - length rest'), g')"
          by auto
        then have "Suc k \<le> length s \<and> rmatch r ([], drop (Suc k) s) = (g', rest') # ms'
           \<and> m = (pos + Suc k, pos + Suc k + (length s - Suc k - length rest'), g')"
          using s by simp
        then show ?thesis by blast
      qed
    qed
  qed
qed

lemma finditer_from_start_ge:
  "m \<in> set (finditer_from r pos s) \<Longrightarrow> pos \<le> m_start m"
  using finditer_from_sound [of m r pos s] by auto

lemma finditer_from_sorted:
  "sorted_wrt (\<lambda>m1 m2. m_end m1 \<le> m_start m2) (finditer_from r pos s)"
proof (induction "length s" arbitrary: s pos rule: less_induct)
  case less
  show ?case
  proof (cases "rmatch r ([], s)")
    case Nil
    show ?thesis
    proof (cases s)
      case Nil
      with \<open>rmatch r ([], s) = []\<close> show ?thesis by (simp add: finditer_from_Nil)
    next
      case (Cons c cs)
      with \<open>rmatch r ([], s) = []\<close> less.hyps [of cs "Suc pos"] show ?thesis
        by (simp add: finditer_from_no_match)
    qed
  next
    case (Cons x ms)
    obtain g rest where x: "x = (g, rest)" by (cases x)
    let ?n = "length s - length rest"
    show ?thesis
    proof (cases "0 < ?n")
      case True
      have "length (drop ?n s) < length s" using True by simp
      from less.hyps [OF this]
      have "sorted_wrt (\<lambda>m1 m2. m_end m1 \<le> m_start m2) (finditer_from r (pos + ?n) (drop ?n s))" .
      moreover have "\<forall>m \<in> set (finditer_from r (pos + ?n) (drop ?n s)). pos + ?n \<le> m_start m"
        using finditer_from_start_ge by blast
      ultimately show ?thesis
        using finditer_from_match [of r s g rest ms pos] Cons x True by simp
    next
      case False
      then have n0: "?n = 0" by simp
      show ?thesis
      proof (cases s)
        case Nil
        then show ?thesis
          using finditer_from_empty_match [of r s g rest ms pos] Cons x n0 by simp
      next
        case (Cons c cs)
        from less.hyps [of cs "Suc pos"] Cons
        have "sorted_wrt (\<lambda>m1 m2. m_end m1 \<le> m_start m2) (finditer_from r (Suc pos) cs)"
          by simp
        moreover have "\<forall>m \<in> set (finditer_from r (Suc pos) cs). pos \<le> m_start m"
        proof
          fix m assume "m \<in> set (finditer_from r (Suc pos) cs)"
          from finditer_from_start_ge [OF this] show "pos \<le> m_start m" by simp
        qed
        ultimately show ?thesis
          using finditer_from_empty_match [of r s g rest ms pos] \<open>rmatch r ([], s) = x # ms\<close> x n0 Cons
          by simp
      qed
    qed
  qed
qed

lemma finditer_from_complete:
  assumes ne: "\<And>s g rest. (g, rest) \<in> set (rmatch r ([], s)) \<Longrightarrow> length rest < length s"
  shows "k \<le> length s \<Longrightarrow> rmatch r ([], drop k s) \<noteq> [] \<Longrightarrow>
         \<exists>m \<in> set (finditer_from r pos s). m_start m \<le> pos + k \<and> pos + k < m_end m"
proof (induction "length s" arbitrary: s pos k rule: less_induct)
  case less
  show ?case
  proof (cases "rmatch r ([], s)")
    case Nil
    then have "k \<noteq> 0" using less.prems(2) by (cases k) auto
    then obtain k' where k: "k = Suc k'" by (cases k) auto
    then obtain c cs where s: "s = c # cs" using less.prems(1) by (cases s) auto
    have "k' \<le> length cs" "rmatch r ([], drop k' cs) \<noteq> []"
      using less.prems k s by auto
    from less.hyps [OF _ this, of "Suc pos"] s
    obtain m where "m \<in> set (finditer_from r (Suc pos) cs)"
       "m_start m \<le> Suc pos + k'" "Suc pos + k' < m_end m" by auto
    then show ?thesis
      using Nil s k by (auto simp: finditer_from_no_match)
  next
    case (Cons x ms)
    obtain g rest where x: "x = (g, rest)" by (cases x)
    let ?n = "length s - length rest"
    have "(g, rest) \<in> set (rmatch r ([], s))" using Cons x by simp
    from ne [OF this] have pos_n: "0 < ?n" by simp
    have fi: "finditer_from r pos s =
       (pos, pos + ?n, g) # finditer_from r (pos + ?n) (drop ?n s)"
      using finditer_from_match [of r s g rest ms pos] Cons x pos_n by simp
    show ?thesis
    proof (cases "k < ?n")
      case True
      then have "m_start (pos, pos + ?n, g) \<le> pos + k \<and> pos + k < m_end (pos, pos + ?n, g)"
        by simp
      then show ?thesis unfolding fi by (meson list.set_intros(1))
    next
      case False
      then have kn: "?n \<le> k" by simp
      have a: "k - ?n \<le> length (drop ?n s)" using less.prems(1) by simp
      have b: "rmatch r ([], drop (k - ?n) (drop ?n s)) \<noteq> []"
        using less.prems(2) kn by simp
      have "length (drop ?n s) < length s" using pos_n by simp
      from less.hyps [OF this a b, of "pos + ?n"]
      obtain m where "m \<in> set (finditer_from r (pos + ?n) (drop ?n s))"
        "m_start m \<le> pos + ?n + (k - ?n)" "pos + ?n + (k - ?n) < m_end m" by auto
      then show ?thesis using fi kn by auto
    qed
  qed
qed

lemma f_regex_consumes:
  assumes "(g, rest) \<in> set (rmatch f_regex ([], s))"
  shows "length rest < length s"
proof -
  from f_regex_match_shape [OF assms] obtain rt sp fn ps where
    "s = ''extern '' @ rt @ sp @ fn @ ''('' @ ps @ '');'' @ rest" by blast
  then have "length s = length (''extern '' @ rt @ sp @ fn @ ''('' @ ps @ '');'') + length rest"
    by simp
  then show ?thesis by simp
qed

lemma drop_Suc_length_append: "drop (Suc (length A)) (A @ x # B) = B"
  by simp

lemma take_length_append: "take (length xs) (xs @ ys) = xs"
  by simp

lemma finditer_f_regex_shape:
  assumes "m \<in> set (finditer f_regex t)"
  shows "\<exists>rt sp fn ps.
           m_start m \<le> m_end m \<and> m_end m \<le> length t
         \<and> take (m_end m - m_start m) (drop (m_start m) t)
             = ''extern '' @ rt @ sp @ fn @ ''('' @ ps @ '');''
         \<and> snd (snd m) = [(''params'', ps), (''function'', fn), (''returnType'', rt)]
         \<and> rt \<noteq> [] \<and> (\<forall>c \<in> set rt. in_params_class c)
         \<and> (\<forall>c \<in> set sp. in_params_class c)
         \<and> fn \<noteq> [] \<and> (\<forall>c \<in> set fn. is_word c)
         \<and> (\<forall>c \<in> set ps. in_params_class c)"
proof -
  from assms finditer_from_sound [of m f_regex 0 t] obtain k g rest ms where
      k: "k \<le> length t" and rm: "rmatch f_regex ([], drop k t) = (g, rest) # ms"
      and m: "m = (k, k + (length t - k - length rest), g)"
    unfolding finditer_def by auto
  have "(g, rest) \<in> set (rmatch f_regex ([], drop k t))" using rm by simp
  from f_regex_match_shape [OF this] obtain rt sp fn ps where
      sh: "drop k t = ''extern '' @ rt @ sp @ fn @ ''('' @ ps @ '');'' @ rest"
      and g: "g = [(''params'', ps), (''function'', fn), (''returnType'', rt)]"
      and cl: "rt \<noteq> []" "\<forall>c \<in> set rt. in_params_class c" "\<forall>c \<in> set sp. in_params_class c"
              "fn \<noteq> []" "\<forall>c \<in> set fn. is_word c" "\<forall>c \<in> set ps. in_params_class c"
    by blast
  let ?M = "''extern '' @ rt @ sp @ fn @ ''('' @ ps @ '');''"
  have dk: "drop k t = ?M @ rest" using sh by simp
  have "length (drop k t) = length ?M + length rest"
    by (simp only: dk length_append)
  then have len: "length t - k - length rest = length ?M" by simp
  have e: "m_end m = k + length ?M" "m_start m = k" using m len by simp_all
  have le: "m_end m \<le> length t"
    using e \<open>length (drop k t) = length ?M + length rest\<close> k by simp
  have tk: "take (m_end m - m_start m) (drop (m_start m) t) = ?M"
    unfolding e dk by (simp only: add_diff_cancel_left' take_length_append)
  have "snd (snd m) = [(''params'', ps), (''function'', fn), (''returnType'', rt)]"
    using m g by simp
  with e le tk cl show ?thesis by (intro exI [of _ rt] exI [of _ sp] exI [of _ fn] exI [of _ ps]) simp
qed

lemma nth_unique_char:
  assumes "x \<notin> set A" "x \<notin> set B" "i < length (A @ x # B)" "(A @ x # B) ! i = x"
  shows "i = length A"
proof (rule ccontr)
  assume ne: "i \<noteq> length A"
  show False
  proof (cases "i < length A")
    case True
    then have "(A @ x # B) ! i = A ! i" by (simp add: nth_append)
    then have "A ! i = x" using assms(4) by (rule trans [OF sym])
    moreover have "A ! i \<in> set A" using True by (rule nth_mem)
    ultimately show False using assms(1) by blast
  next
    case False
    with ne have gt: "length A < i" by simp
    then obtain j where j: "i = Suc (length A + j)" using less_imp_Suc_add by blast
    have "(A @ x # B) ! Suc (length A + j) = B ! j" by (simp add: nth_append)
    then have "(A @ x # B) ! i = B ! j" by (simp only: j)
    then have "B ! j = x" using assms(4) by (rule trans [OF sym])
    moreover have "j < length B" using assms(3) j by simp
    then have "B ! j \<in> set B" by (rule nth_mem)
    ultimately show False using assms(2) by blast
  qed
qed

lemma class_prefix_unique:
  "\<forall>x \<in> set ps. P x \<Longrightarrow> \<forall>x \<in> set q. P x \<Longrightarrow> \<not> P y \<Longrightarrow> \<not> P c \<Longrightarrow>
   ps @ y # u = q @ c # v \<Longrightarrow> ps = q \<and> y = c"
proof (induction ps arbitrary: q)
  case Nil
  then show ?case by (cases q) auto
next
  case (Cons p ps)
  then show ?case by (cases q) auto
qed

lemma paren_not_in_class: "\<not> in_params_class CHR ''(''" "\<not> in_params_class CHR '')''"
  "\<not> in_params_class CHR ''.''" "\<not> is_word CHR ''(''"
  by (simp_all add: in_params_class_def is_word_def)

lemma no_match_covers_bad_parenthesis:
  assumes m: "m \<in> set (finditer f_regex t)"
      and k: "drop k t = CHR ''('' # q @ c # rest"
      and q: "\<forall>x \<in> set q. in_params_class x"
      and c: "\<not> in_params_class c" "c \<noteq> CHR '')''"
  shows "\<not> (m_start m \<le> k \<and> k < m_end m)"
proof
  assume cov: "m_start m \<le> k \<and> k < m_end m"
  from finditer_f_regex_shape [OF m] obtain rt sp fn ps where
      b: "m_start m \<le> m_end m" "m_end m \<le> length t"
      and M: "take (m_end m - m_start m) (drop (m_start m) t)
             = ''extern '' @ rt @ sp @ fn @ ''('' @ ps @ '');''"
      and cl: "\<forall>c \<in> set rt. in_params_class c" "\<forall>c \<in> set sp. in_params_class c"
              "\<forall>c \<in> set fn. is_word c" "\<forall>c \<in> set ps. in_params_class c"
    by blast
  let ?a = "m_start m" and ?b = "m_end m"
  let ?A = "''extern '' @ rt @ sp @ fn"
  let ?B = "ps @ '');''"
  have Meq: "take (?b - ?a) (drop ?a t) = ?A @ CHR ''('' # ?B" using M by simp
  have n1: "CHR ''('' \<notin> set rt" "CHR ''('' \<notin> set sp" "CHR ''('' \<notin> set ps"
    using cl(1,2,4) paren_not_in_class(1) by blast+
  have n2: "CHR ''('' \<notin> set fn"
    using cl(3) paren_not_in_class(4) by blast
  have nA: "CHR ''('' \<notin> set ?A"
    using n1 n2 by simp
  have nB: "CHR ''('' \<notin> set ?B"
    using n1 by simp
  have klt: "k < length t" using cov b by simp
  have tk: "t ! k = CHR ''(''"
    using k klt Cons_nth_drop_Suc [of k t] by simp
  have "length (take (?b - ?a) (drop ?a t)) = ?b - ?a"
    using b by simp
  then have lenM: "length (?A @ CHR ''('' # ?B) = ?b - ?a"
    by (simp only: Meq)
  have idx: "k - ?a < length (?A @ CHR ''('' # ?B)"
    unfolding lenM using cov by arith
  have "(?A @ CHR ''('' # ?B) ! (k - ?a) = take (?b - ?a) (drop ?a t) ! (k - ?a)"
    by (simp only: Meq)
  also have "\<dots> = drop ?a t ! (k - ?a)"
    by (rule nth_take) (use cov in arith)
  also have "\<dots> = t ! (?a + (k - ?a))"
    by (rule nth_drop) (use cov b in arith)
  also have "?a + (k - ?a) = k" using cov by arith
  finally have "(?A @ CHR ''('' # ?B) ! (k - ?a) = t ! k" .
  then have "(?A @ CHR ''('' # ?B) ! (k - ?a) = CHR ''(''"
    by (simp only: tk)
  from nth_unique_char [OF nA nB idx this] have kA: "k - ?a = length ?A" .
  have e1: "Suc k - ?a = Suc (length ?A)"
    unfolding kA [symmetric] using cov by arith
  have "drop (Suc k) t = tl (drop k t)"
    by (simp add: drop_Suc tl_drop)
  then have d: "drop (Suc k) t = q @ c # rest"
    by (simp only: k list.sel)
  have tt: "take (?b - Suc k) (drop (Suc k) t) = ?B"
  proof -
    have a1: "?b - ?a - (Suc k - ?a) = ?b - Suc k" using cov by arith
    have a2: "Suc k - ?a + ?a = Suc k" using cov by arith
    have "drop (Suc k - ?a) (take (?b - ?a) (drop ?a t)) = take (?b - Suc k) (drop (Suc k) t)"
      by (simp only: drop_take drop_drop a1 a2)
    then have "take (?b - Suc k) (drop (Suc k) t) = drop (Suc k - ?a) (take (?b - ?a) (drop ?a t))"
      by (rule sym)
    also have "\<dots> = drop (Suc (length ?A)) (?A @ CHR ''('' # ?B)"
      by (simp only: Meq e1)
    also have "\<dots> = ?B" by (rule drop_Suc_length_append)
    finally show ?thesis .
  qed
  have tk2: "take (?b - Suc k) (q @ c # rest) = ps @ '');''"
    using tt unfolding d .
  have "take (?b - Suc k) (q @ c # rest) @ drop (?b - Suc k) (q @ c # rest) = q @ c # rest"
    by (rule append_take_drop_id)
  then have "(ps @ '');'') @ drop (?b - Suc k) (q @ c # rest) = q @ c # rest"
    by (simp only: tk2)
  then have "ps @ CHR '')'' # '';'' @ drop (?b - Suc k) (q @ c # rest) = q @ c # rest"
    by (simp only: append_assoc append_Cons append_Nil)
  from class_prefix_unique [OF cl(4) q paren_not_in_class(2) c(1) this]
  have "ps = q \<and> CHR '')'' = c" .
  then show False using c(2) by blast
qed

text \<open>
  Claim C5, as amended. Take a declaration whose parameter list, read from its opening
  parenthesis at offset \<open>k\<close> of the flattened text, runs over characters of the class
  \<^verbatim>\<open>[\w ,\*]\<close> up to a character \<open>c\<close> outside the class other than the closing parenthesis: the
  \<^verbatim>\<open>.\<close> of a variadic function, the \<^verbatim>\<open>(\<close> of a function-pointer parameter. The extractor produces
  no raw declaration for it: no match contains that opening parenthesis. The parameter text of
  every match holds characters of the class only, so neither a \<^verbatim>\<open>.\<close> nor a parenthesis. The
  grammar puts no bound on the number of \<^verbatim>\<open>*\<close>.
\<close>

theorem variadic_and_function_pointer_skipped:
  assumes "drop k (flatten content) = CHR ''('' # q @ c # rest"
      and "\<forall>x \<in> set q. in_params_class x"
      and "\<not> in_params_class c" and "c \<noteq> CHR '')''"
      and "m \<in> set (finditer f_regex (flatten content))"
  shows "\<not> (m_start m \<le> k \<and> k < m_end m)
       \<and> (\<forall>x \<in> set (named m ''params''). in_params_class x)
       \<and> \<not> in_params_class CHR ''.'' \<and> \<not> in_params_class CHR ''(''
       \<and> CHR ''.'' \<notin> set (named m ''params'')
       \<and> CHR ''('' \<notin> set (named m ''params'')"
proof -
  have a: "\<not> (m_start m \<le> k \<and> k < m_end m)"
    by (rule no_match_covers_bad_parenthesis [OF assms(5) assms(1) assms(2) assms(3) assms(4)])
  from finditer_f_regex_shape [OF assms(5)] obtain rt fn ps where
      g: "snd (snd m) = [(''params'', ps), (''function'', fn), (''returnType'', rt)]"
      and ps: "\<forall>c \<in> set ps. in_params_class c"
    by blast
  have "named m ''params'' = ps"
    using g by (simp add: named_def)
  then have b: "\<forall>x \<in> set (named m ''params''). in_params_class x"
    using ps by simp
  then have "CHR ''.'' \<notin> set (named m ''params'')" "CHR ''('' \<notin> set (named m ''params'')"
    using paren_not_in_class by blast+
  with a b paren_not_in_class(1,3) show ?thesis by blast
qed

text \<open>
  The theorem at a text with a variadic declaration, a declaration with a function-pointer
  parameter, and a declaration of the grammar: only the last one is extracted.
\<close>

theorem variadic_and_function_pointer_skipped_witness:
  "let content = ''extern int g(int a, ...);\<newline>extern void q(int (*f)(int));\<newline>extern const char *h(void);\<newline>'';
       m = (54, 81, [(''params'', ''void''), (''function'', ''h''), (''returnType'', ''const char *'')])
   in drop 12 (flatten content)
        = CHR ''('' # ''int a, '' @ CHR ''.'' # ''..);extern void q(int (*f)(int));extern const char *h(void);''
    \<and> drop 38 (flatten content)
        = CHR ''('' # ''int '' @ CHR ''('' # ''*f)(int));extern const char *h(void);''
    \<and> list_all in_params_class ''int a, '' \<and> list_all in_params_class ''int ''
    \<and> \<not> in_params_class CHR ''.'' \<and> \<not> in_params_class CHR ''(''
    \<and> finditer f_regex (flatten content) = [m]
    \<and> \<not> (m_start m \<le> 12 \<and> 12 < m_end m) \<and> \<not> (m_start m \<le> 38 \<and> 38 < m_end m)
    \<and> list_all in_params_class (named m ''params'')"
proof -
  define content where "content = ''extern int g(int a, ...);\<newline>extern void q(int (*f)(int));\<newline>extern const char *h(void);\<newline>''"
  define m :: match where "m = (54, 81, [(''params'', ''void''), (''function'', ''h''), (''returnType'', ''const char *'')])"
  have d1: "drop 12 (flatten content)
        = CHR ''('' # ''int a, '' @ CHR ''.'' # ''..);extern void q(int (*f)(int));extern const char *h(void);''"
    unfolding content_def by code_simp
  have d2: "drop 38 (flatten content)
        = CHR ''('' # ''int '' @ CHR ''('' # ''*f)(int));extern const char *h(void);''"
    unfolding content_def by code_simp
  have q1: "\<forall>x \<in> set ''int a, ''. in_params_class x"
    by (simp add: in_params_class_def is_word_def)
  have q2: "\<forall>x \<in> set ''int ''. in_params_class x"
    by (simp add: in_params_class_def is_word_def)
  have fi: "finditer f_regex (flatten content) = [m]"
    unfolding content_def m_def by code_simp
  have mem: "m \<in> set (finditer f_regex (flatten content))"
    unfolding fi by simp
  have c1: "\<not> in_params_class CHR ''.''" "CHR ''.'' \<noteq> CHR '')''"
    by (simp_all add: in_params_class_def is_word_def)
  have c2: "\<not> in_params_class CHR ''(''" "CHR ''('' \<noteq> CHR '')''"
    by (simp_all add: in_params_class_def is_word_def)
  have r1: "\<not> (m_start m \<le> 12 \<and> 12 < m_end m) \<and> (\<forall>x \<in> set (named m ''params''). in_params_class x)"
    using variadic_and_function_pointer_skipped [OF d1 q1 c1 mem] by simp
  have r2: "\<not> (m_start m \<le> 38 \<and> 38 < m_end m)"
    using variadic_and_function_pointer_skipped [OF d2 q2 c2 mem] by simp
  show ?thesis
    unfolding Let_def content_def [symmetric] m_def [symmetric]
    using d1 d2 q1 q2 c1 c2 fi r1 r2 by (simp add: list_all_iff)
qed

text \<open>
  The claim as first stated (more than 2 levels of pointer indirection are skipped) fails:
  \<^verbatim>\<open>extern int f(int ***p);\<close> is extracted, its parameter is classified with the type \<^verbatim>\<open>int **\<close>,
  and a wrapper is emitted.
\<close>

theorem deep_pointer_counterexample:
  \<open>map (function_string sample_conversion_map)
       (finditer f_regex (flatten ''extern int f(int ***p);''))
   = [''def f(p: 'int **') -> int:\<newline>''
    @ ''    p_converted = [_ffi.cast('int *', x) for x in p]\<newline>''
    @ ''    result = _lib.f(p_converted)\<newline>''
    @ ''    return result'']\<close>
  by code_simp


section \<open>Properties of the emission driver\<close>

text \<open>
  Every wrapper starts with its note and the \<^verbatim>\<open>def\<close> of the declared name; the run writes the
  preamble and then, for each match in order, the wrapper and three newlines.
\<close>

lemma build_function_string_header:
  \<open>\<exists>rest. build_function_string fn rt ps rc = todo_note fn @ ''def '' @ fn @ ''('' @ rest\<close>
  unfolding build_function_string_def Let_def
  by (cases "pop_result ps"; cases "fst (pop_result ps)"; cases rc)
     (simp_all add: foldl_out_params or_empty_def split: prod.splits)

lemma function_string_header:
  "\<exists>rest. function_string cm m
      = todo_note (named m ''function'') @ ''def '' @ named m ''function'' @ ''('' @ rest"
proof -
  obtain rt rc where "get_return_type cm (named m ''returnType'') = (rt, rc)"
    by (cases "get_return_type cm (named m ''returnType'')")
  then have "function_string cm m
      = build_function_string (named m ''function'') rt (get_params cm (named m ''params'')) rc"
    by (simp add: function_string_def Let_def)
  then show ?thesis using build_function_string_header by simp
qed

lemma write_loop:
  "files fs0 p = Some c \<Longrightarrow>
   foldl (\<lambda>fs m. file_write (file_write fs p (f m)) p sep) fs0 ms
     = fs0\<lparr>files := (files fs0)(p \<mapsto> c @ concat (map (\<lambda>m. f m @ sep) ms))\<rparr>"
proof (induction ms arbitrary: fs0 c)
  case Nil
  then have "(files fs0)(p \<mapsto> c) = files fs0" by (rule map_upd_triv)
  then show ?case by simp
next
  case (Cons m ms)
  let ?fs1 = "file_write (file_write fs0 p (f m)) p sep"
  have f1: "files ?fs1 p = Some (c @ f m @ sep)"
    using Cons.prems by (simp add: file_write_def or_empty_def)
  have e1: "?fs1 = fs0\<lparr>files := (files fs0)(p \<mapsto> c @ f m @ sep)\<rparr>"
    using Cons.prems by (simp add: file_write_def or_empty_def)
  have "foldl (\<lambda>fs m. file_write (file_write fs p (f m)) p sep) fs0 (m # ms)
          = foldl (\<lambda>fs m. file_write (file_write fs p (f m)) p sep) ?fs1 ms"
    by simp
  also have "\<dots> = ?fs1\<lparr>files := (files ?fs1)(p \<mapsto> (c @ f m @ sep) @ concat (map (\<lambda>m. f m @ sep) ms))\<rparr>"
    by (rule Cons.IH [OF f1])
  also have "\<dots> = fs0\<lparr>files := (files fs0)(p \<mapsto> c @ concat (map (\<lambda>m. f m @ sep) (m # ms)))\<rparr>"
    unfolding e1 by simp
  finally show ?case .
qed

lemma main_eq:
  "main cm fs =
     (case files fs ''./sources/functions.c'' of
        None \<Rightarrow> Inl (FileNotFoundError ''./sources/functions.c'')
      | Some content \<Rightarrow>
          if writable fs ''lib/functions.py''
          then Inr (fs\<lparr>files := (files fs)(''lib/functions.py'' \<mapsto>
                 BASE @ concat (map (\<lambda>m. function_string cm m @ ''\<newline>\<newline>\<newline>'')
                                    (finditer f_regex (flatten content))))\<rparr>)
          else Inl (PermissionError ''lib/functions.py''))"
proof (cases "files fs ''./sources/functions.c''")
  case None
  then show ?thesis by (simp add: main_def open_read_def)
next
  case (Some content)
  show ?thesis
  proof (cases "writable fs ''lib/functions.py''")
    case False
    with Some show ?thesis by (simp add: main_def open_read_def open_truncate_def)
  next
    case True
    let ?fs1 = "file_write (fs\<lparr>files := (files fs)(''lib/functions.py'' \<mapsto> [])\<rparr>)
                   ''lib/functions.py'' BASE"
    have f1: "files ?fs1 ''lib/functions.py'' = Some BASE"
      by (simp add: file_write_def or_empty_def)
    have e1: "?fs1 = fs\<lparr>files := (files fs)(''lib/functions.py'' \<mapsto> BASE)\<rparr>"
      by (simp add: file_write_def or_empty_def)
    have "main cm fs = Inr (foldl (\<lambda>fs m.
              file_write (file_write fs ''lib/functions.py'' (function_string cm m))
                ''lib/functions.py'' ''\<newline>\<newline>\<newline>'')
            ?fs1 (finditer f_regex (flatten content)))"
      using Some True by (simp add: main_def open_read_def open_truncate_def Let_def)
    also have "\<dots> = Inr (?fs1\<lparr>files := (files ?fs1)(''lib/functions.py'' \<mapsto>
                 BASE @ concat (map (\<lambda>m. function_string cm m @ ''\<newline>\<newline>\<newline>'')
                                    (finditer f_regex (flatten content))))\<rparr>)"
      by (simp only: write_loop [OF f1])
    also have "\<dots> = Inr (fs\<lparr>files := (files fs)(''lib/functions.py'' \<mapsto>
                 BASE @ concat (map (\<lambda>m. function_string cm m @ ''\<newline>\<newline>\<newline>'')
                                    (finditer f_regex (flatten content))))\<rparr>)"
      unfolding e1 by simp
    finally show ?thesis using Some True by simp
  qed
qed

text \<open>
  Claim C7. When the input file exists and the output can be written, the run succeeds and the
  output artifact is the preamble followed by one function definition per extracted declaration,
  in the order of extraction, each followed by three newlines. Every extracted declaration is a
  piece of the flattened input of the form \<^verbatim>\<open>extern <type> <name>(<params>);\<close> and its definition
  starts (after an optional note) with \<^verbatim>\<open>def <name>(\<close> for the same name. The declarations are
  extracted in source order and do not overlap, and every offset at which the grammar matches
  belongs to an extracted declaration.
\<close>

theorem extraction_complete_and_ordered:
  assumes "files fs ''./sources/functions.c'' = Some content"
      and "writable fs ''lib/functions.py''"
  shows "let t = flatten content; ms = finditer f_regex t in
     (\<exists>fs'. main cm fs = Inr fs'
        \<and> files fs' ''lib/functions.py''
            = Some (BASE @ concat (map (\<lambda>m. function_string cm m @ ''\<newline>\<newline>\<newline>'') ms)))
   \<and> (\<forall>m \<in> set ms. \<exists>rt sp ps rest.
          take (m_end m - m_start m) (drop (m_start m) t)
            = ''extern '' @ rt @ sp @ named m ''function'' @ ''('' @ ps @ '');''
        \<and> function_string cm m
            = todo_note (named m ''function'') @ ''def '' @ named m ''function'' @ ''('' @ rest)
   \<and> sorted_wrt (\<lambda>m1 m2. m_end m1 \<le> m_start m2) ms
   \<and> (\<forall>k \<le> length t. rmatch f_regex ([], drop k t) \<noteq> [] \<longrightarrow>
          (\<exists>m \<in> set ms. m_start m \<le> k \<and> k < m_end m))"
proof -
  let ?t = "flatten content"
  let ?ms = "finditer f_regex ?t"
  have a: "\<exists>fs'. main cm fs = Inr fs'
        \<and> files fs' ''lib/functions.py''
            = Some (BASE @ concat (map (\<lambda>m. function_string cm m @ ''\<newline>\<newline>\<newline>'') ?ms))"
    using assms by (simp add: main_eq)
  have b: "\<forall>m \<in> set ?ms. \<exists>rt sp ps rest.
          take (m_end m - m_start m) (drop (m_start m) ?t)
            = ''extern '' @ rt @ sp @ named m ''function'' @ ''('' @ ps @ '');''
        \<and> function_string cm m
            = todo_note (named m ''function'') @ ''def '' @ named m ''function'' @ ''('' @ rest"
  proof
    fix m assume "m \<in> set ?ms"
    from finditer_f_regex_shape [OF this] obtain rt sp fn ps where
        tk: "take (m_end m - m_start m) (drop (m_start m) ?t)
               = ''extern '' @ rt @ sp @ fn @ ''('' @ ps @ '');''"
        and g: "snd (snd m) = [(''params'', ps), (''function'', fn), (''returnType'', rt)]"
      by blast
    have fn: "named m ''function'' = fn" using g by (simp add: named_def)
    from function_string_header [of cm m] obtain rest where
      "function_string cm m
         = todo_note (named m ''function'') @ ''def '' @ named m ''function'' @ ''('' @ rest"
      by blast
    with tk fn show "\<exists>rt sp ps rest.
          take (m_end m - m_start m) (drop (m_start m) ?t)
            = ''extern '' @ rt @ sp @ named m ''function'' @ ''('' @ ps @ '');''
        \<and> function_string cm m
            = todo_note (named m ''function'') @ ''def '' @ named m ''function'' @ ''('' @ rest"
      by blast
  qed
  have c: "sorted_wrt (\<lambda>m1 m2. m_end m1 \<le> m_start m2) ?ms"
    unfolding finditer_def by (rule finditer_from_sorted)
  have d: "\<forall>k \<le> length ?t. rmatch f_regex ([], drop k ?t) \<noteq> [] \<longrightarrow>
          (\<exists>m \<in> set ?ms. m_start m \<le> k \<and> k < m_end m)"
  proof (intro allI impI)
    fix k assume "k \<le> length ?t" "rmatch f_regex ([], drop k ?t) \<noteq> []"
    from finditer_from_complete [of f_regex k ?t 0, OF f_regex_consumes this]
    show "\<exists>m \<in> set ?ms. m_start m \<le> k \<and> k < m_end m"
      unfolding finditer_def by simp
  qed
  from a b c d show ?thesis unfolding Let_def by blast
qed

text \<open>
  The theorem at a text with a comment, two declarations of the grammar and a variadic one
  between them.
\<close>

theorem extraction_complete_and_ordered_witness:
  \<open>let content = ''/* boxes */\<newline>extern bool tbox_make(Span *s, Period *p, TBox *result);\<newline>extern int g(int a, ...);\<newline>extern const char *h(void);\<newline>'';
       fs = \<lparr>files = [''./sources/functions.c'' \<mapsto> content], writable = (\<lambda>p. True)\<rparr>;
       m1 = (11, 67, [(''params'', ''Span *s, Period *p, TBox *result''),
                      (''function'', ''tbox_make''), (''returnType'', ''bool'')]);
       m2 = (92, 119, [(''params'', ''void''), (''function'', ''h''),
                       (''returnType'', ''const char *'')])
   in files fs ''./sources/functions.c'' = Some content \<and> writable fs ''lib/functions.py''
    \<and> finditer f_regex (flatten content) = [m1, m2]
    \<and> (\<exists>fs'. main sample_conversion_map fs = Inr fs'
          \<and> files fs' ''lib/functions.py'' = Some (BASE
              @ ''def tbox_make(s: 'Span *', p: 'Period *') -> 'TBox *':\<newline>''
              @ ''    s_converted = _ffi.cast('Span *', s)\<newline>''
              @ ''    p_converted = _ffi.cast('Period *', p)\<newline>''
              @ ''    out_result = _ffi.new('TBox *')\<newline>''
              @ ''    result = _lib.tbox_make(s_converted, p_converted, out_result)\<newline>''
              @ ''    if result:\<newline>''
              @ ''        return out_result[0]\<newline>''
              @ ''    raise Exception(f'C call went wrong: {result}')''
              @ ''\<newline>\<newline>\<newline>''
              @ ''def h() -> 'const char *':\<newline>''
              @ ''    result = _lib.h()\<newline>''
              @ ''    return result''
              @ ''\<newline>\<newline>\<newline>''))
    \<and> m_end m1 \<le> m_start m2
    \<and> rmatch f_regex ([], drop 92 (flatten content)) \<noteq> []
    \<and> (\<exists>m \<in> set [m1, m2]. m_start m \<le> 92 \<and> 92 < m_end m)\<close>
proof -
  define content where "content = ''/* boxes */\<newline>extern bool tbox_make(Span *s, Period *p, TBox *result);\<newline>extern int g(int a, ...);\<newline>extern const char *h(void);\<newline>''"
  define fs where "fs = \<lparr>files = [''./sources/functions.c'' \<mapsto> content], writable = (\<lambda>p. True)\<rparr>"
  define m1 :: match where "m1 = (11, 67, [(''params'', ''Span *s, Period *p, TBox *result''),
                      (''function'', ''tbox_make''), (''returnType'', ''bool'')])"
  define m2 :: match where "m2 = (92, 119, [(''params'', ''void''), (''function'', ''h''),
                       (''returnType'', ''const char *'')])"
  have h: "files fs ''./sources/functions.c'' = Some content" "writable fs ''lib/functions.py''"
    unfolding fs_def by simp_all
  have fi: "finditer f_regex (flatten content) = [m1, m2]"
    unfolding content_def m1_def m2_def by code_simp
  have w1: \<open>function_string sample_conversion_map m1 =
                ''def tbox_make(s: 'Span *', p: 'Period *') -> 'TBox *':\<newline>''
              @ ''    s_converted = _ffi.cast('Span *', s)\<newline>''
              @ ''    p_converted = _ffi.cast('Period *', p)\<newline>''
              @ ''    out_result = _ffi.new('TBox *')\<newline>''
              @ ''    result = _lib.tbox_make(s_converted, p_converted, out_result)\<newline>''
              @ ''    if result:\<newline>''
              @ ''        return out_result[0]\<newline>''
              @ ''    raise Exception(f'C call went wrong: {result}')''\<close>
    unfolding m1_def by code_simp
  have w2: \<open>function_string sample_conversion_map m2 =
                ''def h() -> 'const char *':\<newline>''
              @ ''    result = _lib.h()\<newline>''
              @ ''    return result''\<close>
    unfolding m2_def by code_simp
  note T = extraction_complete_and_ordered [OF h, of sample_conversion_map, unfolded Let_def fi]
  from T have "\<exists>fs'. main sample_conversion_map fs = Inr fs'
        \<and> files fs' ''lib/functions.py''
            = Some (BASE @ concat (map (\<lambda>m. function_string sample_conversion_map m
                                            @ ''\<newline>\<newline>\<newline>'') [m1, m2]))"
    by blast
  then have a: \<open>\<exists>fs'. main sample_conversion_map fs = Inr fs'
          \<and> files fs' ''lib/functions.py'' = Some (BASE
              @ ''def tbox_make(s: 'Span *', p: 'Period *') -> 'TBox *':\<newline>''
              @ ''    s_converted = _ffi.cast('Span *', s)\<newline>''
              @ ''    p_converted = _ffi.cast('Period *', p)\<newline>''
              @ ''    out_result = _ffi.new('TBox *')\<newline>''
              @ ''    result = _lib.tbox_make(s_converted, p_converted, out_result)\<newline>''
              @ ''    if result:\<newline>''
              @ ''        return out_result[0]\<newline>''
              @ ''    raise Exception(f'C call went wrong: {result}')''
              @ ''\<newline>\<newline>\<newline>''
              @ ''def h() -> 'const char *':\<newline>''
              @ ''    result = _lib.h()\<newline>''
              @ ''    return result''
              @ ''\<newline>\<newline>\<newline>'')\<close>
    by (simp add: w1 w2)
  from T have "sorted_wrt (\<lambda>m1 m2. m_end m1 \<le> m_start m2) [m1, m2]" by blast
  then have b: "m_end m1 \<le> m_start m2" by simp
  have rm: "rmatch f_regex ([], drop 92 (flatten content)) \<noteq> []"
    unfolding content_def by code_simp
  have len: "92 \<le> length (flatten content)"
    unfolding content_def by code_simp
  from T len rm have c: "\<exists>m \<in> set [m1, m2]. m_start m \<le> 92 \<and> 92 < m_end m" by blast
  show ?thesis
    unfolding Let_def content_def [symmetric] fs_def [symmetric] m1_def [symmetric] m2_def [symmetric]
    using h fi a b rm c by blast
qed

text \<open>
  Claim C8. The output artifact depends on the input text only: two runs that succeed on file
  systems holding the same input produce the same output artifact, whatever else the file
  systems hold (a stale output included). A run is idempotent: running the generator again on
  the file system a successful run left succeeds and changes nothing. A run succeeds exactly
  when the input file exists and the output file can be opened for writing.
\<close>

theorem generation_is_deterministic_and_idempotent:
  "(files fs1 ''./sources/functions.c'' = files fs2 ''./sources/functions.c''
      \<and> main cm fs1 = Inr out1 \<and> main cm fs2 = Inr out2
      \<longrightarrow> files out1 ''lib/functions.py'' = files out2 ''lib/functions.py'')
   \<and> (main cm fs = Inr out \<longrightarrow> main cm out = Inr out)
   \<and> ((\<exists>out. main cm fs = Inr out)
        \<longleftrightarrow> files fs ''./sources/functions.c'' \<noteq> None \<and> writable fs ''lib/functions.py'')"
proof -
  have a: "files fs1 ''./sources/functions.c'' = files fs2 ''./sources/functions.c''
      \<and> main cm fs1 = Inr out1 \<and> main cm fs2 = Inr out2
      \<longrightarrow> files out1 ''lib/functions.py'' = files out2 ''lib/functions.py''"
    by (auto simp: main_eq split: option.splits if_splits)
  have b: "main cm fs = Inr out \<longrightarrow> main cm out = Inr out"
  proof
    assume run: "main cm fs = Inr out"
    then obtain content where
        c: "files fs ''./sources/functions.c'' = Some content"
        and w: "writable fs ''lib/functions.py''"
        and out: "out = fs\<lparr>files := (files fs)(''lib/functions.py'' \<mapsto>
                 BASE @ concat (map (\<lambda>m. function_string cm m @ ''\<newline>\<newline>\<newline>'')
                                    (finditer f_regex (flatten content))))\<rparr>"
      by (auto simp: main_eq split: option.splits if_splits)
    have c': "files out ''./sources/functions.c'' = Some content"
      unfolding out using c by simp
    have w': "writable out ''lib/functions.py''"
      unfolding out using w by simp
    have "main cm out = Inr (out\<lparr>files := (files out)(''lib/functions.py'' \<mapsto>
                 BASE @ concat (map (\<lambda>m. function_string cm m @ ''\<newline>\<newline>\<newline>'')
                                    (finditer f_regex (flatten content))))\<rparr>)"
      using c' w' by (simp add: main_eq)
    also have "\<dots> = Inr out"
      unfolding out by simp
    finally show "main cm out = Inr out" .
  qed
  have c: "(\<exists>out. main cm fs = Inr out)
        \<longleftrightarrow> files fs ''./sources/functions.c'' \<noteq> None \<and> writable fs ''lib/functions.py''"
    by (auto simp: main_eq split: option.splits if_splits)
  from a b c show ?thesis by blast
qed

text \<open>The theorem at a one-declaration input, once without and once with a stale output file.\<close>

theorem generation_is_deterministic_and_idempotent_witness:
  \<open>let content = ''extern const char *h(void);\<newline>'';
       fs = \<lparr>files = [''./sources/functions.c'' \<mapsto> content], writable = (\<lambda>p. True)\<rparr>;
       fs2 = \<lparr>files = [''./sources/functions.c'' \<mapsto> content, ''lib/functions.py'' \<mapsto> ''# stale''],
              writable = (\<lambda>p. True)\<rparr>
   in \<exists>out1 out2.
        main sample_conversion_map fs = Inr out1 \<and> main sample_conversion_map fs2 = Inr out2
      \<and> files fs ''./sources/functions.c'' = files fs2 ''./sources/functions.c''
      \<and> files out1 ''lib/functions.py'' = files out2 ''lib/functions.py''
      \<and> main sample_conversion_map out1 = Inr out1
      \<and> files out1 ''lib/functions.py'' = Some (BASE
              @ ''def h() -> 'const char *':\<newline>''
              @ ''    result = _lib.h()\<newline>''
              @ ''    return result''
              @ ''\<newline>\<newline>\<newline>'')\<close>
proof -
  define content where "content = ''extern const char *h(void);\<newline>''"
  define fs where "fs = \<lparr>files = [''./sources/functions.c'' \<mapsto> content], writable = (\<lambda>p. True)\<rparr>"
  define fs2 where "fs2 = \<lparr>files = [''./sources/functions.c'' \<mapsto> content, ''lib/functions.py'' \<mapsto> ''# stale''],
              writable = (\<lambda>p. True)\<rparr>"
  define m :: match where "m = (0, 27, [(''params'', ''void''), (''function'', ''h''),
                       (''returnType'', ''const char *'')])"
  have fi: "finditer f_regex (flatten content) = [m]"
    unfolding content_def m_def by code_simp
  have w: \<open>function_string sample_conversion_map m =
                ''def h() -> 'const char *':\<newline>''
              @ ''    result = _lib.h()\<newline>''
              @ ''    return result''\<close>
    unfolding m_def by code_simp
  have i: "files fs ''./sources/functions.c'' = Some content"
          "files fs2 ''./sources/functions.c'' = Some content"
          "writable fs ''lib/functions.py''" "writable fs2 ''lib/functions.py''"
    unfolding fs_def fs2_def by simp_all
  obtain out1 where o1: "main sample_conversion_map fs = Inr out1"
      and f1: "files out1 ''lib/functions.py'' = Some (BASE
                 @ concat (map (\<lambda>m. function_string sample_conversion_map m @ ''\<newline>\<newline>\<newline>'') [m]))"
    using i(1,3) by (simp add: main_eq fi)
  obtain out2 where o2: "main sample_conversion_map fs2 = Inr out2"
    using i(2,4) by (simp add: main_eq)
  have same: "files fs ''./sources/functions.c'' = files fs2 ''./sources/functions.c''"
    using i by simp
  from generation_is_deterministic_and_idempotent
         [of fs fs2 sample_conversion_map out1 out2 fs out1] same o1 o2
  have d: "files out1 ''lib/functions.py'' = files out2 ''lib/functions.py''"
      and r: "main sample_conversion_map out1 = Inr out1"
    by blast+
  have f1': \<open>files out1 ''lib/functions.py'' = Some (BASE
              @ ''def h() -> 'const char *':\<newline>''
              @ ''    result = _lib.h()\<newline>''
              @ ''    return result''
              @ ''\<newline>\<newline>\<newline>'')\<close>
    using f1 by (simp add: w)
  show ?thesis
    unfolding Let_def content_def [symmetric] fs_def [symmetric] fs2_def [symmetric]
    using o1 o2 same d r f1' by blast
qed

end
